theory Spec2Isabelle
  imports Complex_Main "HOL-Library.Word"
begin

section \<open>Sphere-versus-world collision query\<close>

text \<open>
  The embedding of \<^verbatim>\<open>collision_operations.cpp\<close>. The finite \<^verbatim>\<open>double\<close> values that
  reach the query (coordinates, radius, padding, resolution, stored distances) are the
  real numbers they denote, of type \<^typ>\<open>real\<close>; infinities and NaNs as inputs are
  outside the model. The arithmetic of the query is that of the machine: each addition
  and multiplication is rounded to double precision (next subsection). A C++ \<^verbatim>\<open>int\<close>
  grid coordinate is an \<^typ>\<open>int\<close>.
\<close>

subsection \<open>Data\<close>

type_synonym SphereIndex = nat

record Vector3d =
  vx :: real
  vy :: real
  vz :: real

record CollisionSphereModel =
  name :: string
  radius :: real

record CollisionSphereState =
  pos :: Vector3d
  model :: CollisionSphereModel

text \<open>
  The classes \<^verbatim>\<open>OccupancyGrid\<close> and \<^verbatim>\<open>RobotCollisionState\<close> are declared outside the
  sources at hand; \<^verbatim>\<open>CheckSphereCollision\<close> uses four methods of the first and two of
  the second. They are taken as parameters: a grid is the record of its four methods,
  and the collision state is any type \<^typ>\<open>'s\<close> together with its two methods
  (\<^verbatim>\<open>updateSphereState\<close> mutates the state, so it returns the new one).
\<close>

record OccupancyGrid =
  worldToGrid :: "real \<Rightarrow> real \<Rightarrow> real \<Rightarrow> int \<times> int \<times> int"
  isInBounds :: "int \<Rightarrow> int \<Rightarrow> int \<Rightarrow> bool"
  getDistance :: "int \<Rightarrow> int \<Rightarrow> int \<Rightarrow> real"
  getResolution :: real

record 's RobotCollisionState =
  updateSphereState :: "'s \<Rightarrow> SphereIndex \<Rightarrow> 's"
  sphereState :: "'s \<Rightarrow> SphereIndex \<Rightarrow> CollisionSphereState"

text \<open>
  What the code logs. \<^verbatim>\<open>SphereOutOfBounds\<close> is the \<^verbatim>\<open>ROS_DEBUG_NAMED\<close> message of
  \<^verbatim>\<open>CheckSphereCollision\<close> with its seven format arguments; the other constructors are
  the messages of the scenario reader further down.
\<close>

datatype diagnostic =
  SphereOutOfBounds string real real real int int int
  | UnableToOpenObjectsFile
  | ParsedStringTooShort
  | ObjectsInFile int
  | IdListLengthMismatch
  | JointVariableNotFound string

text \<open>
  The outcome of one call: the returned \<^verbatim>\<open>bool\<close>, the value written to the reference
  parameter \<^verbatim>\<open>dist\<close>, the collision state after \<^verbatim>\<open>updateSphereState\<close>, and the
  messages logged.
\<close>

record 's CheckResult =
  ret :: bool
  dist_out :: real
  state_out :: 's
  logged :: "diagnostic list"

subsection \<open>Double-precision arithmetic\<close>

text \<open>
  IEEE 754 binary64 with rounding to nearest, ties to even. A result is a real number
  (\<open>Number\<close>), an infinity or a NaN; the sign of zero is not kept. \<open>exponent x\<close> is the
  exponent \<open>e\<close> of the binade \<open>2^e \<le> |x| < 2^(e+1)\<close> of \<open>x\<close>, found by halving or
  doubling, and held between \<open>-1022\<close> (below which the numbers are subnormal and share
  one spacing) and \<open>1024\<close> (from which on the result overflows). \<open>ulp x\<close> is the spacing
  \<open>2^(e - 52)\<close> of the doubles of that binade. \<open>round_binary64 x\<close> is the multiple of
  \<open>ulp x\<close> nearest to \<open>x\<close>, the one with the even multiplier when two are equally near,
  and an infinity when that multiple is no longer a double. It leaves every double as
  it is (lemma \<open>round_binary64_fixed\<close>). \<open>b64_add\<close>, \<open>b64_mul\<close> and \<open>b64_le\<close> are
  \<^verbatim>\<open>+\<close>, \<^verbatim>\<open>*\<close> and \<^verbatim>\<open><=\<close> on \<^verbatim>\<open>double\<close>.
\<close>

datatype binary64 = Number real | PlusInfinity | MinusInfinity | NotANumber

fun exponent_up :: "nat \<Rightarrow> real \<Rightarrow> int" where
  "exponent_up 0 a = 0"
| "exponent_up (Suc n) a = (if 2 \<le> a then exponent_up n (a / 2) + 1 else 0)"

fun exponent_down :: "nat \<Rightarrow> real \<Rightarrow> int" where
  "exponent_down 0 a = 0"
| "exponent_down (Suc n) a = (if a < 1 then exponent_down n (a * 2) - 1 else 0)"

definition exponent :: "real \<Rightarrow> int" where
  "exponent x = (if 1 \<le> \<bar>x\<bar> then exponent_up 1024 \<bar>x\<bar> else exponent_down 1022 \<bar>x\<bar>)"

definition ulp :: "real \<Rightarrow> real" where
  "ulp x = (let e = exponent x - 52 in if 0 \<le> e then 2 ^ nat e else 1 / 2 ^ nat (- e))"

definition round_half_even :: "real \<Rightarrow> int" where
  "round_half_even q =
     (let n = \<lfloor>q\<rfloor>; f = q - of_int n
      in if f < 1 / 2 then n else if 1 / 2 < f then n + 1 else if even n then n else n + 1)"

definition round_binary64 :: "real \<Rightarrow> binary64" where
  "round_binary64 x =
     (let r = of_int (round_half_even (x / ulp x)) * ulp x
      in if 2 ^ 1024 \<le> r then PlusInfinity
         else if r \<le> - (2 ^ 1024) then MinusInfinity else Number r)"

fun b64_add :: "binary64 \<Rightarrow> binary64 \<Rightarrow> binary64" where
  "b64_add (Number a) (Number b) = round_binary64 (a + b)"
| "b64_add NotANumber y = NotANumber"
| "b64_add x NotANumber = NotANumber"
| "b64_add PlusInfinity MinusInfinity = NotANumber"
| "b64_add MinusInfinity PlusInfinity = NotANumber"
| "b64_add PlusInfinity y = PlusInfinity"
| "b64_add x PlusInfinity = PlusInfinity"
| "b64_add MinusInfinity y = MinusInfinity"
| "b64_add x MinusInfinity = MinusInfinity"

fun b64_mul :: "binary64 \<Rightarrow> binary64 \<Rightarrow> binary64" where
  "b64_mul (Number a) (Number b) = round_binary64 (a * b)"
| "b64_mul NotANumber y = NotANumber"
| "b64_mul x NotANumber = NotANumber"
| "b64_mul (Number a) PlusInfinity =
     (if a = 0 then NotANumber else if 0 < a then PlusInfinity else MinusInfinity)"
| "b64_mul (Number a) MinusInfinity =
     (if a = 0 then NotANumber else if 0 < a then MinusInfinity else PlusInfinity)"
| "b64_mul PlusInfinity (Number b) =
     (if b = 0 then NotANumber else if 0 < b then PlusInfinity else MinusInfinity)"
| "b64_mul MinusInfinity (Number b) =
     (if b = 0 then NotANumber else if 0 < b then MinusInfinity else PlusInfinity)"
| "b64_mul PlusInfinity PlusInfinity = PlusInfinity"
| "b64_mul MinusInfinity MinusInfinity = PlusInfinity"
| "b64_mul PlusInfinity MinusInfinity = MinusInfinity"
| "b64_mul MinusInfinity PlusInfinity = MinusInfinity"

fun b64_le :: "binary64 \<Rightarrow> binary64 \<Rightarrow> bool" where
  "b64_le (Number a) (Number b) = (a \<le> b)"
| "b64_le NotANumber y = False"
| "b64_le x NotANumber = False"
| "b64_le MinusInfinity y = True"
| "b64_le x PlusInfinity = True"
| "b64_le x y = False"

text \<open>
  \<open>representable x\<close>: the real number \<open>x\<close> is a double. \<open>literal x\<close> is the double that
  the source text \<open>x\<close> denotes, for \<open>x\<close> within the range of the doubles.
\<close>

definition representable :: "real \<Rightarrow> bool" where
  "representable x = (round_binary64 x = Number x)"

definition literal :: "real \<Rightarrow> real" where
  "literal x = (case round_binary64 x of Number r \<Rightarrow> r | _ \<Rightarrow> 0)"

text \<open>
  The expression \<^verbatim>\<open>ss.model->radius + 0.5 * grid.getResolution() + padding\<close> as the
  machine evaluates it: the product first, then the two sums from the left, each
  rounded. The three operands enter through \<open>round_binary64\<close>, which is the identity on
  the doubles; \<open>0.5\<close> is a double.
\<close>

definition effective_radius :: "real \<Rightarrow> real \<Rightarrow> real \<Rightarrow> binary64" where
  "effective_radius rad res padding =
     b64_add (b64_add (round_binary64 rad) (b64_mul (Number 0.5) (round_binary64 res)))
       (round_binary64 padding)"

subsection \<open>The query\<close>

definition CheckSphereCollision ::
  "OccupancyGrid \<Rightarrow> 's RobotCollisionState \<Rightarrow> 's \<Rightarrow> real \<Rightarrow> SphereIndex \<Rightarrow> 's CheckResult" where
  "CheckSphereCollision grid ops state padding sidx =
     (let state1 = updateSphereState ops state sidx;
          ss = sphereState ops state1 sidx;
          (gx, gy, gz) = worldToGrid grid (vx (pos ss)) (vy (pos ss)) (vz (pos ss))
      in if \<not> isInBounds grid gx gy gz then
           \<lparr>ret = False, dist_out = 0, state_out = state1,
            logged = [SphereOutOfBounds (name (model ss))
                        (vx (pos ss)) (vy (pos ss)) (vz (pos ss)) gx gy gz]\<rparr>
         else
           let obs_dist = getDistance grid gx gy gz;
               eff = effective_radius (radius (model ss)) (getResolution grid) padding
           in if b64_le (round_binary64 obs_dist) eff then
                \<lparr>ret = False, dist_out = obs_dist, state_out = state1, logged = []\<rparr>
              else
                \<lparr>ret = True, dist_out = obs_dist, state_out = state1, logged = []\<rparr>)"

text \<open>
  \<^verbatim>\<open>CheckSphereCollision\<close> returns \<^verbatim>\<open>false\<close> on both of its failure paths (centre out
  of bounds, obstacle within the effective radius) and \<^verbatim>\<open>true\<close> when the sphere is
  free: the returned flag says that the sphere is valid. The \<open>collides\<close> component of the
  result pair is therefore the negation of the returned flag.
\<close>

definition collides :: "'s CheckResult \<Rightarrow> bool" where
  "collides res = (\<not> ret res)"

text \<open>The centre of sphere \<open>sidx\<close> that the query looks up, and the cell it maps to.\<close>

definition sphere_center :: "'s RobotCollisionState \<Rightarrow> 's \<Rightarrow> SphereIndex \<Rightarrow> CollisionSphereState" where
  "sphere_center ops state sidx = sphereState ops (updateSphereState ops state sidx) sidx"

definition sphere_cell :: "OccupancyGrid \<Rightarrow> CollisionSphereState \<Rightarrow> int \<times> int \<times> int" where
  "sphere_cell grid ss = worldToGrid grid (vx (pos ss)) (vy (pos ss)) (vz (pos ss))"

definition cell_in_bounds :: "OccupancyGrid \<Rightarrow> int \<times> int \<times> int \<Rightarrow> bool" where
  "cell_in_bounds grid c = (case c of (gx, gy, gz) \<Rightarrow> isInBounds grid gx gy gz)"

definition cell_distance :: "OccupancyGrid \<Rightarrow> int \<times> int \<times> int \<Rightarrow> real" where
  "cell_distance grid c = (case c of (gx, gy, gz) \<Rightarrow> getDistance grid gx gy gz)"

section \<open>The voxel grid\<close>

text \<open>
  Modelled from the spec: the class \<^verbatim>\<open>OccupancyGrid\<close> and the distance map behind it
  are not among the sources at hand. The grid below follows the data model and the
  operations \<open>world_to_grid\<close>, \<open>in_bounds\<close> and \<open>distance\<close> of the specification: an
  origin, a resolution (world units per cell), the extents (here the number of cells
  along each axis) and the dense array of stored distances. \<open>world_to_grid\<close> is
  \<open>floor ((x - ox) / r)\<close> on each axis, without clamping; \<open>in_bounds\<close> checks each
  index against \<open>0\<close> and the extent; \<open>distance\<close> returns the stored value.
\<close>

record VoxelGrid =
  origin_x :: real
  origin_y :: real
  origin_z :: real
  resolution :: real
  extent_x :: int
  extent_y :: int
  extent_z :: int
  stored :: "int \<times> int \<times> int \<Rightarrow> real"

definition world_to_grid :: "VoxelGrid \<Rightarrow> real \<Rightarrow> real \<Rightarrow> real \<Rightarrow> int \<times> int \<times> int" where
  "world_to_grid g x y z =
     (\<lfloor>(x - origin_x g) / resolution g\<rfloor>,
      \<lfloor>(y - origin_y g) / resolution g\<rfloor>,
      \<lfloor>(z - origin_z g) / resolution g\<rfloor>)"

definition in_bounds :: "VoxelGrid \<Rightarrow> int \<Rightarrow> int \<Rightarrow> int \<Rightarrow> bool" where
  "in_bounds g gx gy gz =
     (0 \<le> gx \<and> gx < extent_x g \<and> 0 \<le> gy \<and> gy < extent_y g \<and> 0 \<le> gz \<and> gz < extent_z g)"

definition distance :: "VoxelGrid \<Rightarrow> int \<Rightarrow> int \<Rightarrow> int \<Rightarrow> real" where
  "distance g gx gy gz = stored g (gx, gy, gz)"

definition grid_of :: "VoxelGrid \<Rightarrow> OccupancyGrid" where
  "grid_of g = \<lparr>worldToGrid = world_to_grid g, isInBounds = in_bounds g,
                getDistance = distance g, getResolution = resolution g\<rparr>"

text \<open>
  Modelled from the spec: the invariant of the distance field. The points that
  \<open>world_to_grid\<close> sends to cell \<open>(gx, gy, gz)\<close> form the cube
  \<open>[ox + gx * r, ox + (gx + 1) * r)\<close> on each axis; \<open>cell_center\<close> is the centre of
  that cube, and the distance between two cells is the Euclidean distance between their
  centres. Every cell stores the distance to the nearest occupied cell, saturated at
  \<open>max_distance\<close> (which is also the value stored when nothing is occupied).
\<close>

type_synonym point3 = "real \<times> real \<times> real"

fun euclid :: "point3 \<Rightarrow> point3 \<Rightarrow> real" where
  "euclid (x1, y1, z1) (x2, y2, z2) = sqrt ((x1 - x2)\<^sup>2 + (y1 - y2)\<^sup>2 + (z1 - z2)\<^sup>2)"

fun cell_center :: "VoxelGrid \<Rightarrow> int \<times> int \<times> int \<Rightarrow> point3" where
  "cell_center g (gx, gy, gz) =
     (origin_x g + (of_int gx + 1/2) * resolution g,
      origin_y g + (of_int gy + 1/2) * resolution g,
      origin_z g + (of_int gz + 1/2) * resolution g)"

definition nearest_occupied ::
  "VoxelGrid \<Rightarrow> real \<Rightarrow> (int \<times> int \<times> int) list \<Rightarrow> int \<times> int \<times> int \<Rightarrow> real" where
  "nearest_occupied g max_distance occ c =
     fold (\<lambda>q d. min d (euclid (cell_center g c) (cell_center g q))) occ max_distance"

definition field_invariant :: "VoxelGrid \<Rightarrow> real \<Rightarrow> (int \<times> int \<times> int) list \<Rightarrow> bool" where
  "field_invariant g max_distance occ =
     (\<forall>gx gy gz. in_bounds g gx gy gz \<longrightarrow>
        distance g gx gy gz = nearest_occupied g max_distance occ (gx, gy, gz))"

definition center_point :: "CollisionSphereState \<Rightarrow> point3" where
  "center_point ss = (vx (pos ss), vy (pos ss), vz (pos ss))"

subsection \<open>Concrete worlds\<close>

text \<open>
  The grid of the test scenario (\<^verbatim>\<open>InitTestScenarioPostPlanningModel\<close>): 3 m on each
  axis at resolution 0.02, origin \<open>(-0.75, -1.5, 0)\<close>, \<open>max_distance = 1.8\<close>, and no
  obstacle, so that every cell stores 1.8.
\<close>

definition empty_world :: VoxelGrid where
  "empty_world = \<lparr>origin_x = -0.75, origin_y = -1.5, origin_z = 0, resolution = 0.02,
     extent_x = 150, extent_y = 150, extent_z = 150, stored = (\<lambda>c. 1.8)\<rparr>"

text \<open>
  A grid of unit cells with a single occupied cell \<open>(3, 4, 0)\<close>, whose field is the
  distance to that cell (the saturation value 100 is never reached inside the grid).
\<close>

definition unit_frame :: VoxelGrid where
  "unit_frame = \<lparr>origin_x = 0, origin_y = 0, origin_z = 0, resolution = 1,
     extent_x = 10, extent_y = 10, extent_z = 10, stored = (\<lambda>c. 0)\<rparr>"

definition one_obstacle_world :: VoxelGrid where
  "one_obstacle_world = unit_frame\<lparr>stored := nearest_occupied unit_frame 100 [(3, 4, 0)]\<rparr>"

text \<open>
  A grid of a single cell at the origin, of a given resolution, that stores a given
  distance.
\<close>

definition one_cell_world :: "real \<Rightarrow> real \<Rightarrow> VoxelGrid" where
  "one_cell_world res obs = \<lparr>origin_x = 0, origin_y = 0, origin_z = 0, resolution = res,
     extent_x = 1, extent_y = 1, extent_z = 1, stored = (\<lambda>c. obs)\<rparr>"


definition decimal_world :: VoxelGrid where
  "decimal_world = one_cell_world (literal 0.2) (literal 0.9)"

text \<open>
  The simplest collision state: an array of sphere states that is always up to date.
\<close>

definition array_state :: "(SphereIndex \<Rightarrow> CollisionSphereState) RobotCollisionState" where
  "array_state = \<lparr>updateSphereState = (\<lambda>s i. s), sphereState = (\<lambda>s i. s i)\<rparr>"

definition sphere_at :: "real \<Rightarrow> real \<Rightarrow> real \<Rightarrow> real \<Rightarrow> CollisionSphereState" where
  "sphere_at x y z rad =
     \<lparr>pos = \<lparr>vx = x, vy = y, vz = z\<rparr>, model = \<lparr>name = ''sphere'', radius = rad\<rparr>\<rparr>"

definition all_spheres :: "CollisionSphereState \<Rightarrow> SphereIndex \<Rightarrow> CollisionSphereState" where
  "all_spheres ss i = ss"

section \<open>The scenario reader\<close>

text \<open>
  The embedding of \<^verbatim>\<open>GetCollisionCube\<close>, \<^verbatim>\<open>GetCollisionCubes\<close> and
  \<^verbatim>\<open>GetCollisionObjects\<close> of \<^verbatim>\<open>test_scenario.cpp\<close>. A call either returns, with the
  vector of collision objects and the messages it logged, or it does not: it throws, or
  its behaviour is undefined. The second case is a \<open>failure\<close>.
\<close>

subsection \<open>The C library\<close>

text \<open>
  \<^verbatim>\<open>LengthError\<close> is the \<^verbatim>\<open>std::length_error\<close> of \<^verbatim>\<open>vector::resize\<close>; the other
  failures are undefined behaviour: a token that does not fit the 1024 bytes of
  \<^verbatim>\<open>sTemp\<close>, a read of \<^verbatim>\<open>sTemp\<close> before anything was stored in it, a number that
  \<^verbatim>\<open>atoi\<close> cannot represent as an \<^verbatim>\<open>int\<close>, and an index outside a vector.

  A \<^verbatim>\<open>double\<close> read from the file is \<open>Finite v\<close> for the real number \<open>v\<close> that the
  token denotes (rounding to the nearest representable number and overflow are not
  modelled), an infinity or a NaN.

  \<^verbatim>\<open>atoi\<close> and \<^verbatim>\<open>atof\<close> follow the C standard (\<^verbatim>\<open>strtol\<close> in base 10 and
  \<^verbatim>\<open>strtod\<close>): leading white space, an optional sign, then the longest prefix of the
  expected form, and 0 when there is none. \<^verbatim>\<open>atof\<close> accepts decimal numbers with an
  optional fraction and exponent, hexadecimal numbers with an optional binary exponent,
  \<^verbatim>\<open>inf\<close>, \<^verbatim>\<open>infinity\<close> and \<^verbatim>\<open>nan\<close> in any case. \<open>tolower\<close> gives the code of
  the lower-case letter.
\<close>

datatype failure = LengthError | BufferOverrun | UninitializedRead | IntegerOverflow | OutOfRange

datatype double = Finite real | PosInf | NegInf | NaN

definition isspace :: "char \<Rightarrow> bool" where
  "isspace c = (c \<in> {CHR '' '', CHR 0x09, CHR 0x0A, CHR 0x0B, CHR 0x0C, CHR 0x0D})"

definition isdigit :: "char \<Rightarrow> bool" where
  "isdigit c = (48 \<le> (of_char c :: nat) \<and> (of_char c :: nat) \<le> 57)"

definition tolower :: "char \<Rightarrow> nat" where
  "tolower c = (if 65 \<le> (of_char c :: nat) \<and> (of_char c :: nat) \<le> 90
                then of_char c + 32 else of_char c)"

definition isxdigit :: "char \<Rightarrow> bool" where
  "isxdigit c = (isdigit c \<or> (97 \<le> tolower c \<and> tolower c \<le> 102))"

definition digit_value :: "char \<Rightarrow> nat" where
  "digit_value c = (if isdigit c then of_char c - 48 else tolower c - 87)"

definition digits_value :: "nat \<Rightarrow> string \<Rightarrow> nat" where
  "digits_value base ds = foldl (\<lambda>a c. base * a + digit_value c) 0 ds"

definition c_str :: "string \<Rightarrow> string" where
  "c_str buf = takeWhile (\<lambda>c. c \<noteq> CHR 0x00) buf"

definition sign_prefix :: "string \<Rightarrow> bool \<times> string" where
  "sign_prefix s =
     (case s of [] \<Rightarrow> (False, [])
      | c # cs \<Rightarrow> if c = CHR ''-'' then (True, cs)
                  else if c = CHR ''+'' then (False, cs) else (False, s))"

definition atoi :: "string \<Rightarrow> int option" where
  "atoi s =
     (case sign_prefix (dropWhile isspace s) of (neg, ds) \<Rightarrow>
        let v = int (digits_value 10 (takeWhile isdigit ds));
            r = (if neg then - v else v)
        in if - (2 ^ 31) \<le> r \<and> r < 2 ^ 31 then Some r else None)"

definition exponent_part :: "char \<Rightarrow> string \<Rightarrow> int option" where
  "exponent_part marker s =
     (case s of [] \<Rightarrow> None
      | c # cs \<Rightarrow>
          if tolower c \<noteq> of_char marker then None
          else case sign_prefix cs of (neg, ds) \<Rightarrow>
            let e = takeWhile isdigit ds
            in if e = [] then None
               else Some (if neg then - int (digits_value 10 e) else int (digits_value 10 e)))"

definition scale :: "real \<Rightarrow> nat \<Rightarrow> int \<Rightarrow> real" where
  "scale m b e = (if 0 \<le> e then m * real b ^ nat e else m / real b ^ nat (- e))"

definition float_body :: "(char \<Rightarrow> bool) \<Rightarrow> nat \<Rightarrow> char \<Rightarrow> nat \<Rightarrow> string \<Rightarrow> real option" where
  "float_body is_digit base marker exp_base s =
     (let ip = takeWhile is_digit s;
          r1 = dropWhile is_digit s;
          has_point = (case r1 of [] \<Rightarrow> False | c # cs \<Rightarrow> c = CHR ''.'');
          fp = (if has_point then takeWhile is_digit (tl r1) else []);
          r2 = (if has_point then dropWhile is_digit (tl r1) else r1)
      in if ip = [] \<and> fp = [] then None
         else
           let m = real (digits_value base ip) + real (digits_value base fp) / real base ^ length fp
           in Some (case exponent_part marker r2 of None \<Rightarrow> m | Some e \<Rightarrow> scale m exp_base e))"

definition hex_float :: "string \<Rightarrow> real option" where
  "hex_float s =
     (case s of
        c0 # c1 # cs \<Rightarrow>
          if c0 = CHR ''0'' \<and> tolower c1 = of_char (CHR ''x'')
          then float_body isxdigit 16 (CHR ''p'') 2 cs else None
      | _ \<Rightarrow> None)"

definition dec_float :: "string \<Rightarrow> real option" where
  "dec_float s = float_body isdigit 10 (CHR ''e'') 10 s"

definition prefix_ignoring_case :: "string \<Rightarrow> string \<Rightarrow> bool" where
  "prefix_ignoring_case p s = (map tolower (take (length p) s) = map of_char p)"

definition atof :: "string \<Rightarrow> double" where
  "atof s =
     (case sign_prefix (dropWhile isspace s) of (neg, body) \<Rightarrow>
        case hex_float body of
          Some v \<Rightarrow> Finite (if neg then - v else v)
        | None \<Rightarrow>
            (case dec_float body of
               Some v \<Rightarrow> Finite (if neg then - v else v)
             | None \<Rightarrow>
                 if prefix_ignoring_case ''inf'' body then (if neg then NegInf else PosInf)
                 else if prefix_ignoring_case ''nan'' body then NaN
                 else Finite 0))"


subsection \<open>Streams\<close>

text \<open>
  An open file is the characters not yet read and its end-of-file indicator.
  \<open>fscanf_string f buf\<close> is \<^verbatim>\<open>fscanf(f, "%s", buf)\<close>: it skips white space; if the input
  ends there, it returns \<^verbatim>\<open>EOF\<close> and leaves the buffer as it was; otherwise it stores
  the characters up to the next white space or the end of the input and returns 1. The
  end-of-file indicator is set as soon as the end of the input has been hit, also when
  that ended a token. The buffer holds \<open>None\<close> until something is stored in it; the C
  string in it ends at the first NUL (\<open>c_str\<close>).
\<close>

record FILE =
  unread :: string
  eof_flag :: bool

definition EOF :: int where
  "EOF = - 1"

definition fscanf_string :: "FILE \<Rightarrow> string option \<Rightarrow> failure + (int \<times> FILE \<times> string option)" where
  "fscanf_string f buf =
     (let rest = dropWhile isspace (unread f)
      in if rest = [] then Inr (EOF, \<lparr>unread = [], eof_flag = True\<rparr>, buf)
         else
           let tok = takeWhile (\<lambda>c. \<not> isspace c) rest;
               rest' = dropWhile (\<lambda>c. \<not> isspace c) rest
           in if 1024 \<le> length tok then Inl BufferOverrun
              else Inr (1, \<lparr>unread = rest', eof_flag = (eof_flag f \<or> rest' = [])\<rparr>, Some tok))"

definition feof :: "FILE \<Rightarrow> bool" where
  "feof f = eof_flag f"

subsection \<open>Messages\<close>

text \<open>
  The fields of \<^verbatim>\<open>moveit_msgs::CollisionObject\<close> and of the messages inside it that the
  code assigns; the others keep the values of the default constructor. \<^verbatim>\<open>id\<close> and
  \<^verbatim>\<open>type\<close> are named \<open>object_id\<close> and \<open>prim_type\<close>. The time stamp is the result of
  \<^verbatim>\<open>ros::Time::now()\<close>, an input of the model.
\<close>

type_synonym Time = nat

record Point =
  px :: double
  py :: double
  pz :: double

record Quaternion =
  qx :: real
  qy :: real
  qz :: real
  qw :: real

record Pose =
  position :: Point
  orientation :: Quaternion

datatype SolidPrimitiveType = BOX | SPHERE | CYLINDER | CONE

record SolidPrimitive =
  prim_type :: SolidPrimitiveType
  dimensions :: "double list"

datatype Operation = ADD | REMOVE | APPEND | MOVE

record Header =
  frame_id :: string
  stamp :: Time

record CollisionObject =
  header :: Header
  object_id :: string
  primitives :: "SolidPrimitive list"
  primitive_poses :: "Pose list"
  operation :: Operation

subsection \<open>Building the boxes\<close>

text \<open>
  \<open>now\<close> is what \<^verbatim>\<open>ros::Time::now()\<close> returns in this call, and \<open>clock i\<close> what it
  returns in the call for object \<open>i\<close>. The loop of \<^verbatim>\<open>GetCollisionCubes\<close> carries the
  objects built so far and the two variables \<^verbatim>\<open>dims\<close> and \<^verbatim>\<open>pose\<close> that it
  overwrites in each round.
\<close>

definition GetCollisionCube :: "Time \<Rightarrow> Pose \<Rightarrow> double list \<Rightarrow> string \<Rightarrow> string \<Rightarrow> failure + CollisionObject" where
  "GetCollisionCube now pose dims frame ident =
     (if length dims < 3 then Inl OutOfRange
      else Inr \<lparr>header = \<lparr>frame_id = frame, stamp = now\<rparr>,
                object_id = ident,
                primitives = [\<lparr>prim_type = BOX, dimensions = [dims ! 0, dims ! 1, dims ! 2]\<rparr>],
                primitive_poses = [pose],
                operation = ADD\<rparr>)"

record cubes_state =
  objs :: "CollisionObject list"
  dims :: "double list"
  pose :: Pose

function cubes_loop ::
  "(nat \<Rightarrow> Time) \<Rightarrow> double list list \<Rightarrow> string list \<Rightarrow> string \<Rightarrow> nat \<Rightarrow> cubes_state
     \<Rightarrow> failure + cubes_state" where
  "cubes_loop clock objects object_ids frame i st =
     (if i < length objects then
        if length (objects ! i) < 6 \<or> length object_ids \<le> i then Inl OutOfRange
        else
          let pose1 = (pose st)\<lparr>position := \<lparr>px = objects ! i ! 0, py = objects ! i ! 1, pz = objects ! i ! 2\<rparr>\<rparr>;
              dims1 = (dims st)[0 := objects ! i ! 3, 1 := objects ! i ! 4, 2 := objects ! i ! 5]
          in case GetCollisionCube (clock i) pose1 dims1 frame (object_ids ! i) of
               Inl e \<Rightarrow> Inl e
             | Inr obj \<Rightarrow>
                 cubes_loop clock objects object_ids frame (i + 1)
                   \<lparr>objs = objs st @ [obj], dims = dims1, pose = pose1\<rparr>
      else Inr st)"
  by pat_completeness auto
termination
  by (relation "measure (\<lambda>(clock, objects, object_ids, frame, i, st). length objects - i)") auto

declare cubes_loop.simps [simp del]

definition GetCollisionCubes ::
  "(nat \<Rightarrow> Time) \<Rightarrow> double list list \<Rightarrow> string list \<Rightarrow> string
     \<Rightarrow> failure + (CollisionObject list \<times> diagnostic list)" where
  "GetCollisionCubes clock objects object_ids frame =
     (let st0 = \<lparr>objs = [], dims = replicate 3 (Finite 0),
                 pose = \<lparr>position = \<lparr>px = Finite 0, py = Finite 0, pz = Finite 0\<rparr>,
                         orientation = \<lparr>qx = 0, qy = 0, qz = 0, qw = 1\<rparr>\<rparr>\<rparr>
      in if length object_ids \<noteq> length objects then Inr (objs st0, [IdListLengthMismatch])
         else case cubes_loop clock objects object_ids frame 0 st0 of
                Inl e \<Rightarrow> Inl e
              | Inr st \<Rightarrow> Inr (objs st, []))"

subsection \<open>Reading the file\<close>

text \<open>
  The local variables of \<^verbatim>\<open>GetCollisionObjects\<close>. \<open>scan_token\<close> is the statement
  \<^verbatim>\<open>if (fscanf(fCfg, "%s", sTemp) < 1) printf("Parsed string has length < 1.\n")\<close>, which
  occurs three times. \<open>resize_count\<close> is the conversion of the \<^verbatim>\<open>int\<close> count to the
  64-bit \<^verbatim>\<open>size_t\<close> parameter of \<^verbatim>\<open>resize\<close>, which throws when the count exceeds
  \<open>max_size\<close> (here that of a vector whose elements take 24 bytes). \<open>fopen\<close> is the
  file system: the contents of the file of a given name, if it can be opened. Memory is
  taken to be unbounded: an allocation within \<open>max_size\<close> succeeds.
\<close>

record reader_state =
  fCfg :: FILE
  sTemp :: "string option"
  object_ids :: "string list"
  objects :: "double list list"
  printed :: "diagnostic list"

definition scan_token :: "reader_state \<Rightarrow> failure + reader_state" where
  "scan_token st =
     (case fscanf_string (fCfg st) (sTemp st) of
        Inl e \<Rightarrow> Inl e
      | Inr (r, f, buf) \<Rightarrow>
          Inr (st\<lparr>fCfg := f, sTemp := buf,
                  printed := printed st @ (if r < 1 then [ParsedStringTooShort] else [])\<rparr>))"

definition vector_resize :: "nat \<Rightarrow> 'a \<Rightarrow> 'a list \<Rightarrow> 'a list" where
  "vector_resize n v xs = take n xs @ replicate (n - length xs) v"

definition max_size :: nat where
  "max_size = (2 ^ 63 - 1) div 24"

definition resize_count :: "int \<Rightarrow> failure + nat" where
  "resize_count n =
     (let count = unat (word_of_int n :: 64 word)
      in if max_size < count then Inl LengthError else Inr count)"

definition read_value :: "nat \<Rightarrow> nat \<Rightarrow> reader_state \<Rightarrow> failure + reader_state" where
  "read_value i j st =
     (case scan_token st of
        Inl e \<Rightarrow> Inl e
      | Inr st1 \<Rightarrow>
          if \<not> feof (fCfg st1) then
            (case sTemp st1 of
               None \<Rightarrow> Inl UninitializedRead
             | Some buf \<Rightarrow>
                 if length (c_str buf) \<noteq> 0 then
                   if i < length (objects st1) \<and> j < length (objects st1 ! i)
                   then Inr (st1\<lparr>objects := (objects st1)[i := (objects st1 ! i)[j := atof (c_str buf)]]\<rparr>)
                   else Inl OutOfRange
                 else Inr st1)
          else Inr st1)"

function read_values :: "nat \<Rightarrow> nat \<Rightarrow> reader_state \<Rightarrow> failure + reader_state" where
  "read_values i j st =
     (if j < 6 then
        case read_value i j st of
          Inl e \<Rightarrow> Inl e
        | Inr st1 \<Rightarrow> read_values i (j + 1) st1
      else Inr st)"
  by pat_completeness auto
termination
  by (relation "measure (\<lambda>(i, j, st). 6 - j)") auto

declare read_values.simps [simp del]

definition read_object :: "nat \<Rightarrow> reader_state \<Rightarrow> failure + reader_state" where
  "read_object i st =
     (case scan_token st of
        Inl e \<Rightarrow> Inl e
      | Inr st1 \<Rightarrow>
          (case sTemp st1 of
             None \<Rightarrow> Inl UninitializedRead
           | Some buf \<Rightarrow>
               if i < length (objects st1) then
                 read_values i 0
                   (st1\<lparr>object_ids := object_ids st1 @ [c_str buf],
                        objects := (objects st1)[i := vector_resize 6 (Finite 0) (objects st1 ! i)]\<rparr>)
               else Inl OutOfRange))"

function read_objects :: "int \<Rightarrow> int \<Rightarrow> reader_state \<Rightarrow> failure + reader_state" where
  "read_objects i num_obs st =
     (if i < num_obs then
        case read_object (nat i) st of
          Inl e \<Rightarrow> Inl e
        | Inr st1 \<Rightarrow> read_objects (i + 1) num_obs st1
      else Inr st)"
  by pat_completeness auto
termination
  by (relation "measure (\<lambda>(i, num_obs, st). nat (num_obs - i))") auto

declare read_objects.simps [simp del]

definition GetCollisionObjects ::
  "(string \<Rightarrow> string option) \<Rightarrow> (nat \<Rightarrow> Time) \<Rightarrow> string \<Rightarrow> string
     \<Rightarrow> failure + (CollisionObject list \<times> diagnostic list)" where
  "GetCollisionObjects fopen clock filename frame =
     (case fopen filename of
        None \<Rightarrow> Inr ([], [UnableToOpenObjectsFile])
      | Some contents \<Rightarrow>
          (case scan_token \<lparr>fCfg = \<lparr>unread = contents, eof_flag = False\<rparr>, sTemp = None,
                              object_ids = [], objects = [], printed = []\<rparr> of
             Inl e \<Rightarrow> Inl e
           | Inr st1 \<Rightarrow>
               (case sTemp st1 of
                  None \<Rightarrow> Inl UninitializedRead
                | Some buf \<Rightarrow>
                    (case atoi (c_str buf) of
                       None \<Rightarrow> Inl IntegerOverflow
                     | Some num_obs \<Rightarrow>
                         (case resize_count num_obs of
                            Inl e \<Rightarrow> Inl e
                          | Inr count \<Rightarrow>
                              (case read_objects 0 num_obs
                                      (st1\<lparr>printed := printed st1 @ [ObjectsInFile num_obs],
                                           objects := vector_resize count [] (objects st1),
                                           object_ids := []\<rparr>) of
                                 Inl e \<Rightarrow> Inl e
                               | Inr st2 \<Rightarrow>
                                   (case GetCollisionCubes clock (objects st2) (object_ids st2) frame of
                                      Inl e \<Rightarrow> Inl e
                                    | Inr (cubes, msgs) \<Rightarrow> Inr (cubes, printed st2 @ msgs))))))))"


subsection \<open>Tokens, and what a run of the reader consumes\<close>

text \<open>
  The vocabulary of the properties of the reader. \<open>tokens s\<close> are the maximal runs of
  characters other than white space in \<open>s\<close>, in order: the strings that successive calls
  of \<^verbatim>\<open>fscanf\<close> with \<^verbatim>\<open>%s\<close> store. \<open>remaining\<close> counts the tokens not yet read, and
  \<open>fits\<close> says that each of them fits the buffer. \<open>advanced k st st1\<close> relates the state
  before and after \<open>k\<close> calls of \<open>scan_token\<close>: \<open>k\<close> tokens are gone, or all of them
  when there were fewer, and one message was printed for each call that found none.
\<close>

function tokens :: "string \<Rightarrow> string list" where
  "tokens s =
     (if dropWhile isspace s = [] then []
      else takeWhile (\<lambda>c. \<not> isspace c) (dropWhile isspace s)
           # tokens (dropWhile (\<lambda>c. \<not> isspace c) (dropWhile isspace s)))"
  by pat_completeness auto
termination
proof (relation "measure length")
  show "wf (measure length)" by simp
next
  fix s :: string
  assume ne: "dropWhile isspace s \<noteq> []"
  then obtain c cs where r: "dropWhile isspace s = c # cs" by (cases "dropWhile isspace s") auto
  have "\<not> isspace c" using r by (metis hd_dropWhile list.sel(1) ne)
  then have "dropWhile (\<lambda>c. \<not> isspace c) (c # cs) = dropWhile (\<lambda>c. \<not> isspace c) cs" by simp
  then have "length (dropWhile (\<lambda>c. \<not> isspace c) (dropWhile isspace s)) \<le> length cs"
    by (simp add: r length_dropWhile_le)
  also have "length cs < length (dropWhile isspace s)" by (simp add: r)
  also have "\<dots> \<le> length s" by (rule length_dropWhile_le)
  finally show "(dropWhile (\<lambda>c. \<not> isspace c) (dropWhile isspace s), s) \<in> measure length" by simp
qed

declare tokens.simps [simp del]

definition remaining :: "reader_state \<Rightarrow> nat" where
  "remaining st = length (tokens (unread (fCfg st)))"

definition fits :: "reader_state \<Rightarrow> bool" where
  "fits st = (\<forall>t \<in> set (tokens (unread (fCfg st))). length t < 1024)"

definition advanced :: "nat \<Rightarrow> reader_state \<Rightarrow> reader_state \<Rightarrow> bool" where
  "advanced k st st1 =
     (fits st1 \<and> sTemp st1 \<noteq> None
      \<and> remaining st1 = remaining st - k
      \<and> printed st1 = printed st @ replicate (k - remaining st) ParsedStringTooShort
      \<and> length (objects st1) = length (objects st))"

text \<open>
  The shape of every object that \<^verbatim>\<open>GetCollisionCube\<close> builds: an added object with one
  primitive, a box, at one pose, whose orientation is the identity quaternion.
\<close>

definition identity_orientation :: Quaternion where
  "identity_orientation = \<lparr>qx = 0, qy = 0, qz = 0, qw = 1\<rparr>"

definition axis_aligned_box :: "CollisionObject \<Rightarrow> bool" where
  "axis_aligned_box obj =
     (operation obj = ADD
      \<and> length (primitives obj) = 1
      \<and> prim_type (hd (primitives obj)) = BOX
      \<and> length (primitive_poses obj) = 1
      \<and> orientation (hd (primitive_poses obj)) = identity_orientation)"

subsection \<open>Concrete files\<close>

text \<open>
  A file system with a single file, a clock, the box that \<^verbatim>\<open>GetCollisionCube\<close> builds
  from six finite numbers, and the contents of some scenario files: the one of the
  specification (a count line and two records, each line ended by a newline), the same
  without the last newline, one whose
  record stops after four of its seven tokens and holds a token that is no number, one
  whose six field tokens are no numbers, one whose numbers are written without a
  decimal point, and one whose count is negative.
\<close>

definition one_file :: "string \<Rightarrow> string \<Rightarrow> string \<Rightarrow> string option" where
  "one_file path contents filename = (if filename = path then Some contents else None)"

definition wall_clock :: "nat \<Rightarrow> Time" where
  "wall_clock i = 1000 + i"

definition box ::
  "Time \<Rightarrow> string \<Rightarrow> string \<Rightarrow> real \<Rightarrow> real \<Rightarrow> real \<Rightarrow> real \<Rightarrow> real \<Rightarrow> real \<Rightarrow> CollisionObject" where
  "box t frame ident x y z dx dy dz =
     \<lparr>header = \<lparr>frame_id = frame, stamp = t\<rparr>, object_id = ident,
      primitives = [\<lparr>prim_type = BOX, dimensions = [Finite dx, Finite dy, Finite dz]\<rparr>],
      primitive_poses = [\<lparr>position = \<lparr>px = Finite x, py = Finite y, pz = Finite z\<rparr>,
                         orientation = \<lparr>qx = 0, qy = 0, qz = 0, qw = 1\<rparr>\<rparr>],
      operation = ADD\<rparr>"

definition scenario_file :: string where
  "scenario_file = ''2'' @ [CHR 0x0A] @ ''box1 0 0 0 0.1 0.1 0.1'' @ [CHR 0x0A]
                   @ ''box2 1 0 0 0.2 0.2 0.2'' @ [CHR 0x0A]"

definition unterminated_file :: string where
  "unterminated_file = ''2'' @ [CHR 0x0A] @ ''box1 0 0 0 0.1 0.1 0.1'' @ [CHR 0x0A]
                       @ ''box2 1 0 0 0.2 0.2 0.2''"

definition short_file :: string where
  "short_file = ''1'' @ [CHR 0x0A] @ ''box1 0.5 abc 2'' @ [CHR 0x0A]"

definition wordy_file :: string where
  "wordy_file = ''1'' @ [CHR 0x0A] @ ''box1 a b c d e f'' @ [CHR 0x0A]"


definition negative_file :: string where
  "negative_file = ''-1'' @ [CHR 0x0A] @ ''box1 0 0 0 1 1 1'' @ [CHR 0x0A]"




section \<open>Robot states\<close>

text \<open>
  The embedding of \<^verbatim>\<open>MakeRobotState\<close> (the overload for \<^verbatim>\<open>moveit_msgs::RobotState\<close>).
  Of the message only the two parallel arrays \<^verbatim>\<open>joint_state.name\<close> and
  \<^verbatim>\<open>joint_state.position\<close> are read; of the planning model only the list of planning
  joints. \<open>find_joint\<close> is the inner loop, from index \<open>i\<close> on: it stops at the first
  index whose name is the wanted one and reads the position at that index, which is
  undefined when the position array is shorter.
\<close>

record JointState =
  js_name :: "string list"
  js_position :: "real list"

record RobotStateMsg =
  joint_state :: JointState

function find_joint :: "RobotStateMsg \<Rightarrow> string \<Rightarrow> nat \<Rightarrow> failure + real option" where
  "find_joint robot_state var_name i =
     (if i < length (js_name (joint_state robot_state)) then
        if js_name (joint_state robot_state) ! i = var_name then
          if i < length (js_position (joint_state robot_state))
          then Inr (Some (js_position (joint_state robot_state) ! i))
          else Inl OutOfRange
        else find_joint robot_state var_name (i + 1)
      else Inr None)"
  by pat_completeness auto
termination
  by (relation "measure (\<lambda>(robot_state, var_name, i). length (js_name (joint_state robot_state)) - i)")
    auto

declare find_joint.simps [simp del]

fun make_state ::
  "RobotStateMsg \<Rightarrow> string list \<Rightarrow> real list \<Rightarrow> failure + (real list \<times> bool \<times> diagnostic list)" where
  "make_state robot_state [] state = Inr (state, True, [])"
| "make_state robot_state (var_name # rest) state =
     (case find_joint robot_state var_name 0 of
        Inl e \<Rightarrow> Inl e
      | Inr None \<Rightarrow> Inr ([], False, [JointVariableNotFound var_name])
      | Inr (Some p) \<Rightarrow> make_state robot_state rest (state @ [p]))"

definition MakeRobotState ::
  "RobotStateMsg \<Rightarrow> string list \<Rightarrow> failure + (real list \<times> bool \<times> diagnostic list)" where
  "MakeRobotState robot_state planning_joints = make_state robot_state planning_joints []"

text \<open>
  The position recorded in the message under a name: the entry of the position array
  at the first index at which the name array holds that name, if there is one.
\<close>

definition recorded_position :: "RobotStateMsg \<Rightarrow> string \<Rightarrow> real option" where
  "recorded_position robot_state var_name =
     map_of (zip (js_name (joint_state robot_state)) (js_position (joint_state robot_state))) var_name"

text \<open>
  Two messages: one with a position for each of its two names, and one with a name and
  no position at all (a joint state that carries no positions).
\<close>

definition two_joints :: RobotStateMsg where
  "two_joints = \<lparr>joint_state = \<lparr>js_name = [''shoulder'', ''elbow''], js_position = [0.5, 1.5]\<rparr>\<rparr>"

definition names_only :: RobotStateMsg where
  "names_only = \<lparr>joint_state = \<lparr>js_name = [''shoulder''], js_position = []\<rparr>\<rparr>"


section \<open>Properties of the double-precision arithmetic\<close>

lemma exponent_up_numeral:
  "exponent_up (numeral k) a = (if 2 \<le> a then exponent_up (pred_numeral k) (a / 2) + 1 else 0)"
  by (simp add: numeral_eq_Suc)

lemma exponent_down_numeral:
  "exponent_down (numeral k) a = (if a < 1 then exponent_down (pred_numeral k) (a * 2) - 1 else 0)"
  by (simp add: numeral_eq_Suc)

lemmas b64 = exponent_def ulp_def round_half_even_def round_binary64_def effective_radius_def
  literal_def Let_def exponent_up_numeral exponent_down_numeral

lemma round_half_even_of_int [simp]: "round_half_even (of_int n) = n"
  by (simp add: round_half_even_def)

lemma round_half_even_close: "\<bar>of_int (round_half_even q) - q\<bar> \<le> 1 / 2"
  unfolding round_half_even_def Let_def by (auto; linarith)

lemma exponent_up_le: "1 \<le> a \<Longrightarrow> 2 powr of_int (exponent_up n a) \<le> a"
proof (induction n arbitrary: a)
  case 0
  then show ?case by simp
next
  case (Suc n)
  show ?case
  proof (cases "2 \<le> a")
    case True
    then have "1 \<le> a / 2" by simp
    from Suc.IH [OF this] have "2 powr of_int (exponent_up n (a / 2)) \<le> a / 2" .
    then have "2 powr of_int (exponent_up n (a / 2)) * 2 \<le> a" by simp
    then show ?thesis using True by (simp add: powr_add)
  next
    case False
    then show ?thesis using Suc.prems by simp
  qed
qed

lemma exponent_down_le:
  "0 < a \<Longrightarrow> a < 1 \<Longrightarrow> exponent_down n a = - int n \<or> 2 powr of_int (exponent_down n a) \<le> a"
proof (induction n arbitrary: a)
  case 0
  then show ?case by simp
next
  case (Suc n)
  show ?case
  proof (cases "a * 2 < 1")
    case True
    from Suc.IH [OF _ True] Suc.prems
    have "exponent_down n (a * 2) = - int n \<or> 2 powr of_int (exponent_down n (a * 2)) \<le> a * 2"
      by simp
    then show ?thesis
    proof
      assume "exponent_down n (a * 2) = - int n"
      then show ?thesis using Suc.prems by simp
    next
      assume "2 powr of_int (exponent_down n (a * 2)) \<le> a * 2"
      then have "2 powr of_int (exponent_down n (a * 2)) / 2 \<le> a" by simp
      then have "2 powr (of_int (exponent_down n (a * 2)) - 1) \<le> a"
        by (simp add: powr_diff)
      then show ?thesis using Suc.prems by simp
    qed
  next
    case False
    have "exponent_down (Suc n) a = exponent_down n (a * 2) - 1" using Suc.prems by simp
    moreover have "exponent_down n (a * 2) = 0" using False by (cases n) simp_all
    ultimately have "exponent_down (Suc n) a = - 1" by simp
    moreover have "2 powr (- 1) \<le> a" using False by (simp add: powr_minus)
    ultimately show ?thesis by simp
  qed
qed

lemma ulp_powr: "ulp x = 2 powr of_int (exponent x - 52)"
  by (simp add: ulp_def Let_def powr_realpow [symmetric] powr_minus_divide [symmetric])


lemma exponent_bound:
  assumes x: "x = of_int m * 2 powr of_int k" and m: "\<bar>m\<bar> < 2 ^ 53" and k: "- 1074 \<le> k"
    and nz: "x \<noteq> 0"
  shows "exponent x - 52 \<le> k"
proof -
  have "\<bar>x\<bar> = of_int \<bar>m\<bar> * 2 powr of_int k" by (simp add: x abs_mult)
  also have "\<dots> < 2 ^ 53 * 2 powr of_int k"
  proof -
    have "(of_int \<bar>m\<bar> :: real) < of_int (2 ^ 53)" using m by (simp only: of_int_less_iff)
    then show ?thesis by simp
  qed
  also have "\<dots> = 2 powr of_int (53 + k)"
    by (simp add: powr_add powr_realpow [symmetric])
  finally have ub: "\<bar>x\<bar> < 2 powr of_int (53 + k)" .
  have key: "2 powr of_int e \<le> \<bar>x\<bar> \<Longrightarrow> e - 52 \<le> k" for e :: int
  proof -
    assume "2 powr of_int e \<le> \<bar>x\<bar>"
    then have "(2::real) powr of_int e < 2 powr of_int (53 + k)" using ub by linarith
    then have "(of_int e :: real) < of_int (53 + k)" by (simp only: powr_less_cancel_iff)
    then have "e < 53 + k" by (simp only: of_int_less_iff)
    then show "e - 52 \<le> k" by simp
  qed
  show ?thesis
  proof (cases "1 \<le> \<bar>x\<bar>")
    case True
    then have "2 powr of_int (exponent x) \<le> \<bar>x\<bar>"
      by (simp add: exponent_def exponent_up_le)
    then show ?thesis by (rule key)
  next
    case False
    then have lt: "\<bar>x\<bar> < 1" and pos: "0 < \<bar>x\<bar>" using nz by simp_all
    have e: "exponent x = exponent_down 1022 \<bar>x\<bar>" using False by (simp add: exponent_def)
    from exponent_down_le [OF pos lt, of 1022]
    show ?thesis
    proof
      assume "exponent_down 1022 \<bar>x\<bar> = - int 1022"
      then show ?thesis using k e by simp
    next
      assume "2 powr of_int (exponent_down 1022 \<bar>x\<bar>) \<le> \<bar>x\<bar>"
      then show ?thesis unfolding e by (rule key)
    qed
  qed
qed

lemma round_binary64_fixed:
  assumes x: "x = of_int m * 2 powr of_int k" and m: "\<bar>m\<bar> < 2 ^ 53" and k: "- 1074 \<le> k"
    and fin: "\<bar>x\<bar> < 2 ^ 1024"
  shows "round_binary64 x = Number x"
proof -
  have q: "\<exists>n. x / ulp x = of_int n"
  proof (cases "x = 0")
    case True
    then have "x / ulp x = of_int 0" by simp
    then show ?thesis ..
  next
    case False
    define d where "d = k - (exponent x - 52)"
    have d0: "0 \<le> d" using exponent_bound [OF x m k False] by (simp add: d_def)
    have "x / ulp x = of_int m * (2 powr of_int k / 2 powr of_int (exponent x - 52))"
      by (simp add: x ulp_powr)
    also have "2 powr of_int k / 2 powr of_int (exponent x - 52) = (2::real) powr of_int d"
      by (simp add: d_def powr_diff)
    also have "(2::real) powr of_int d = 2 ^ nat d"
      using d0 by (simp add: powr_realpow [symmetric])
    finally have "x / ulp x = of_int (m * 2 ^ nat d)" by simp
    then show ?thesis ..
  qed
  then obtain n where n: "x / ulp x = of_int n" ..
  have "ulp x \<noteq> 0" by (simp add: ulp_powr)
  have "of_int (round_half_even (x / ulp x)) * ulp x = of_int n * ulp x"
    by (simp add: n)
  also have "\<dots> = x / ulp x * ulp x" by (simp add: n)
  also have "\<dots> = x" using \<open>ulp x \<noteq> 0\<close> by simp
  finally have r: "of_int (round_half_even (x / ulp x)) * ulp x = x" .
  have "\<not> 2 ^ 1024 \<le> x" "\<not> x \<le> - (2 ^ 1024)" using fin by linarith+
  then show ?thesis by (simp add: round_binary64_def Let_def r)
qed

text \<open>
  Every double is representable: a number \<open>m * 2^k\<close> with \<open>|m| < 2^53\<close> and
  \<open>k \<ge> -1074\<close> below \<open>2^1024\<close> in absolute value. When the operands and the results of
  the three operations are representable, nothing is rounded and the effective radius
  is the exact sum.
\<close>

lemma representable_double:
  assumes "x = of_int m * 2 powr of_int k" and "\<bar>m\<bar> < 2 ^ 53" and "- 1074 \<le> k"
    and "\<bar>x\<bar> < 2 ^ 1024"
  shows "representable x"
  unfolding representable_def using assms by (rule round_binary64_fixed)

lemma effective_radius_exact:
  assumes "representable rad" and "representable res" and "representable padding"
    and "representable (0.5 * res)" and "representable (rad + 0.5 * res)"
    and "representable (rad + 0.5 * res + padding)"
  shows "effective_radius rad res padding = Number (rad + 0.5 * res + padding)"
  using assms by (simp add: effective_radius_def representable_def)

section \<open>Properties of the sphere-versus-world query\<close>

lemma CheckSphereCollision_out_of_bounds:
  assumes "\<not> cell_in_bounds grid (sphere_cell grid (sphere_center ops state sidx))"
  shows "CheckSphereCollision grid ops state padding sidx =
           \<lparr>ret = False, dist_out = 0, state_out = updateSphereState ops state sidx,
            logged = [case sphere_cell grid (sphere_center ops state sidx) of (gx, gy, gz) \<Rightarrow>
              SphereOutOfBounds (name (model (sphere_center ops state sidx)))
                (vx (pos (sphere_center ops state sidx)))
                (vy (pos (sphere_center ops state sidx)))
                (vz (pos (sphere_center ops state sidx))) gx gy gz]\<rparr>"
  using assms
  by (auto simp add: CheckSphereCollision_def cell_in_bounds_def sphere_cell_def sphere_center_def
      Let_def split: prod.splits)

lemma CheckSphereCollision_in_bounds:
  assumes "cell_in_bounds grid (sphere_cell grid (sphere_center ops state sidx))"
  shows "CheckSphereCollision grid ops state padding sidx =
           \<lparr>ret = \<not> b64_le
                      (round_binary64
                         (cell_distance grid (sphere_cell grid (sphere_center ops state sidx))))
                      (effective_radius (radius (model (sphere_center ops state sidx)))
                         (getResolution grid) padding),
            dist_out = cell_distance grid (sphere_cell grid (sphere_center ops state sidx)),
            state_out = updateSphereState ops state sidx,
            logged = []\<rparr>"
  using assms
  by (auto simp add: CheckSphereCollision_def cell_in_bounds_def cell_distance_def sphere_cell_def
      sphere_center_def Let_def split: prod.splits)

text \<open>
  C1. Whenever the centre of the sphere maps to a cell that is out of bounds, the query
  returns normally with the collision verdict (the returned flag is \<^verbatim>\<open>false\<close>), writes
  the distance 0, and logs exactly one message, the out-of-bounds diagnostic.
\<close>

theorem out_of_bounds_is_collision:
  assumes "\<not> cell_in_bounds grid (sphere_cell grid (sphere_center ops state sidx))"
  shows "collides (CheckSphereCollision grid ops state padding sidx)
         \<and> dist_out (CheckSphereCollision grid ops state padding sidx) = 0
         \<and> (\<exists>n x y z gx gy gz.
               logged (CheckSphereCollision grid ops state padding sidx)
                 = [SphereOutOfBounds n x y z gx gy gz])"
  using CheckSphereCollision_out_of_bounds [OF assms, of padding]
  by (auto simp add: collides_def split: prod.splits)

theorem out_of_bounds_is_collision_witness:
  "\<not> cell_in_bounds (grid_of empty_world)
       (sphere_cell (grid_of empty_world)
          (sphere_center array_state (all_spheres (sphere_at 10 10 10 0.05)) 0))
   \<and> collides (CheckSphereCollision (grid_of empty_world) array_state
                  (all_spheres (sphere_at 10 10 10 0.05)) 0 0)
   \<and> dist_out (CheckSphereCollision (grid_of empty_world) array_state
                  (all_spheres (sphere_at 10 10 10 0.05)) 0 0) = 0"
proof -
  have h: "\<not> cell_in_bounds (grid_of empty_world)
       (sphere_cell (grid_of empty_world)
          (sphere_center array_state (all_spheres (sphere_at 10 10 10 0.05)) 0))"
    by (simp add: cell_in_bounds_def in_bounds_def sphere_cell_def sphere_center_def
        grid_of_def empty_world_def array_state_def sphere_at_def all_spheres_def
        world_to_grid_def)
  show ?thesis using h out_of_bounds_is_collision [OF h, of 0] by simp
qed



text \<open>
  Rounding decides the verdict of that query: the three operands and the stored
  distance of \<open>tight_world\<close> are doubles, and the stored distance exceeds the exact sum
  \<open>1 + 0.5 * (3 * 2^-53) + 0\<close>, which the machine rounds up to \<open>1 + 2^-52\<close>.
\<close>

lemma tight_world_exact_sum:
  "\<not> (1 + 1 / 2 ^ 52 \<le> 1 + 0.5 * (3 / 2 ^ 53) + (0::real))"
  by simp

text \<open>
  With the doubles written \<^verbatim>\<open>0.7\<close>, \<^verbatim>\<open>0.2\<close>, \<^verbatim>\<open>0.1\<close> and \<^verbatim>\<open>0.9\<close> for the radius,
  the resolution, the padding and the stored distance, the machine's sum is the double
  next below the one written \<^verbatim>\<open>0.9\<close>, and the query reports no collision.
\<close>

lemma decimal_world_verdict:
  "ret (CheckSphereCollision (grid_of decimal_world) array_state
          (all_spheres (sphere_at 0 0 0 (literal 0.7))) (literal 0.1) 0)"
proof -
  have l7: "literal 0.7 = 3152519739159347 / 2 ^ 52" by (simp add: b64)
  have l2: "literal 0.2 = 3602879701896397 / 2 ^ 54" by (simp add: b64)
  have l1: "literal 0.1 = 3602879701896397 / 2 ^ 55" by (simp add: b64)
  have l9: "literal 0.9 = 8106479329266893 / 2 ^ 53" by (simp add: b64)
  have e: "effective_radius (3152519739159347 / 2 ^ 52) (3602879701896397 / 2 ^ 54)
             (3602879701896397 / 2 ^ 55) = Number (8106479329266892 / 2 ^ 53)"
    by (simp add: b64)
  have o: "round_binary64 (8106479329266893 / 2 ^ 53) = Number (8106479329266893 / 2 ^ 53)"
    by (simp add: b64)
  have "CheckSphereCollision (grid_of decimal_world) array_state
          (all_spheres (sphere_at 0 0 0 (literal 0.7))) (literal 0.1) 0
        = CheckSphereCollision
            (grid_of (one_cell_world (3602879701896397 / 2 ^ 54) (8106479329266893 / 2 ^ 53)))
            array_state (all_spheres (sphere_at 0 0 0 (3152519739159347 / 2 ^ 52)))
            (3602879701896397 / 2 ^ 55) 0"
    by (simp only: decimal_world_def l7 l2 l1 l9)
  also have "ret \<dots>"
    using e o
    by (simp add: CheckSphereCollision_def grid_of_def one_cell_world_def
        array_state_def sphere_at_def all_spheres_def world_to_grid_def in_bounds_def
        distance_def Let_def)
  finally show ?thesis .
qed

section \<open>The half-cell guard\<close>

lemma fold_min_le_init: "fold (\<lambda>q d. min d (f q)) occ (m::real) \<le> m"
proof (induction occ arbitrary: m)
  case Nil
  show ?case by simp
next
  case (Cons a occ)
  have "fold (\<lambda>q d. min d (f q)) occ (min m (f a)) \<le> min m (f a)" by (rule Cons.IH)
  then show ?case by simp
qed

lemma fold_min_le_elem: "q \<in> set occ \<Longrightarrow> fold (\<lambda>q d. min d (f q)) occ (m::real) \<le> f q"
proof (induction occ arbitrary: m)
  case Nil then show ?case by simp
next
  case (Cons a occ)
  show ?case
  proof (cases "q = a")
    case True
    have "fold (\<lambda>q d. min d (f q)) occ (min m (f a)) \<le> min m (f a)" by (rule fold_min_le_init)
    then show ?thesis using True by simp
  next
    case False
    then show ?thesis using Cons by simp
  qed
qed

lemma nearest_occupied_le:
  "q \<in> set occ \<Longrightarrow> nearest_occupied g m occ c \<le> euclid (cell_center g c) (cell_center g q)"
  unfolding nearest_occupied_def by (rule fold_min_le_elem)

lemma floor_cell_center:
  fixes x c r :: real
  assumes "0 < r"
  shows "\<bar>x - (c + (of_int \<lfloor>(x - c) / r\<rfloor> + 1/2) * r)\<bar> \<le> r / 2"
proof -
  define g where "g = \<lfloor>(x - c) / r\<rfloor>"
  have "of_int g \<le> (x - c) / r" "(x - c) / r < of_int g + 1"
    unfolding g_def by linarith+
  then have b: "of_int g * r \<le> x - c" "x - c < (of_int g + 1) * r"
    using assms by (simp_all add: pos_le_divide_eq pos_divide_less_eq)
  have e: "x - (c + (of_int g + 1/2) * r) = (x - c) - of_int g * r - r / 2"
    by (simp add: algebra_simps)
  have "(of_int g + 1) * r = of_int g * r + r" by (simp add: algebra_simps)
  with b have "- (r / 2) \<le> (x - c) - of_int g * r - r / 2" "(x - c) - of_int g * r - r / 2 \<le> r / 2"
    by linarith+
  then show ?thesis unfolding g_def[symmetric] e by linarith
qed

lemma sqrt_sum3_triangle:
  fixes a1 a2 a3 b1 b2 b3 :: real
  shows "sqrt ((a1 + b1)\<^sup>2 + (a2 + b2)\<^sup>2 + (a3 + b3)\<^sup>2)
           \<le> sqrt (a1\<^sup>2 + a2\<^sup>2 + a3\<^sup>2) + sqrt (b1\<^sup>2 + b2\<^sup>2 + b3\<^sup>2)"
proof -
  define p where "p = sqrt (a1\<^sup>2 + a2\<^sup>2)"
  define q where "q = sqrt (b1\<^sup>2 + b2\<^sup>2)"
  define s where "s = sqrt ((a1 + b1)\<^sup>2 + (a2 + b2)\<^sup>2)"
  have s0: "0 \<le> s" and p0: "0 \<le> p" and q0: "0 \<le> q" by (simp_all add: s_def p_def q_def)
  have spq: "s \<le> p + q" unfolding s_def p_def q_def by (rule real_sqrt_sum_squares_triangle_ineq)
  have s2: "s\<^sup>2 = (a1 + b1)\<^sup>2 + (a2 + b2)\<^sup>2" unfolding s_def by simp
  have p2: "p\<^sup>2 = a1\<^sup>2 + a2\<^sup>2" unfolding p_def by simp
  have q2: "q\<^sup>2 = b1\<^sup>2 + b2\<^sup>2" unfolding q_def by simp
  have "s\<^sup>2 \<le> (p + q)\<^sup>2" using spq s0 by (rule power_mono)
  then have "sqrt (s\<^sup>2 + (a3 + b3)\<^sup>2) \<le> sqrt ((p + q)\<^sup>2 + (a3 + b3)\<^sup>2)" by simp
  also have "\<dots> \<le> sqrt (p\<^sup>2 + a3\<^sup>2) + sqrt (q\<^sup>2 + b3\<^sup>2)"
    by (rule real_sqrt_sum_squares_triangle_ineq)
  finally show ?thesis unfolding s2 p2 q2 .
qed

lemma euclid_triangle: "euclid a c \<le> euclid a b + euclid b c"
proof -
  obtain a1 a2 a3 where a: "a = (a1, a2, a3)" by (cases a) auto
  obtain b1 b2 b3 where b: "b = (b1, b2, b3)" by (cases b) auto
  obtain c1 c2 c3 where c: "c = (c1, c2, c3)" by (cases c) auto
  have "sqrt (((a1 - b1) + (b1 - c1))\<^sup>2 + ((a2 - b2) + (b2 - c2))\<^sup>2 + ((a3 - b3) + (b3 - c3))\<^sup>2)
          \<le> sqrt ((a1 - b1)\<^sup>2 + (a2 - b2)\<^sup>2 + (a3 - b3)\<^sup>2) + sqrt ((b1 - c1)\<^sup>2 + (b2 - c2)\<^sup>2 + (b3 - c3)\<^sup>2)"
    by (rule sqrt_sum3_triangle)
  then show ?thesis by (simp add: a b c)
qed

lemma sqrt3_bound:
  fixes a b c h :: real
  assumes "\<bar>a\<bar> \<le> h" "\<bar>b\<bar> \<le> h" "\<bar>c\<bar> \<le> h"
  shows "sqrt (a\<^sup>2 + b\<^sup>2 + c\<^sup>2) \<le> sqrt 3 * h"
proof -
  have h0: "0 \<le> h" using assms(1) by linarith
  have "a\<^sup>2 \<le> h\<^sup>2" "b\<^sup>2 \<le> h\<^sup>2" "c\<^sup>2 \<le> h\<^sup>2"
    using assms h0 by (simp_all add: abs_le_square_iff [symmetric])
  then have "a\<^sup>2 + b\<^sup>2 + c\<^sup>2 \<le> 3 * h\<^sup>2" by linarith
  then have "sqrt (a\<^sup>2 + b\<^sup>2 + c\<^sup>2) \<le> sqrt (3 * h\<^sup>2)" by simp
  also have "\<dots> = sqrt 3 * h" using h0 by (simp add: real_sqrt_mult)
  finally show ?thesis .
qed

text \<open>The lookup error: a point is within half a cell diagonal of the centre of its cell.\<close>

lemma lookup_error:
  assumes "0 < resolution g"
  shows "euclid (x, y, z) (cell_center g (world_to_grid g x y z)) \<le> sqrt 3 / 2 * resolution g"
proof -
  have "sqrt ((x - (origin_x g + (of_int \<lfloor>(x - origin_x g) / resolution g\<rfloor> + 1/2) * resolution g))\<^sup>2
           + (y - (origin_y g + (of_int \<lfloor>(y - origin_y g) / resolution g\<rfloor> + 1/2) * resolution g))\<^sup>2
           + (z - (origin_z g + (of_int \<lfloor>(z - origin_z g) / resolution g\<rfloor> + 1/2) * resolution g))\<^sup>2)
        \<le> sqrt 3 * (resolution g / 2)"
    by (intro sqrt3_bound floor_cell_center assms)
  then show ?thesis by (simp add: world_to_grid_def)
qed

lemma not_collides_in_bounds:
  assumes "\<not> collides (CheckSphereCollision grid ops state padding sidx)"
  shows "cell_in_bounds grid (sphere_cell grid (sphere_center ops state sidx))"
proof (rule ccontr)
  assume "\<not> ?thesis"
  from CheckSphereCollision_out_of_bounds [OF this, of padding] assms
  show False by (simp add: collides_def)
qed

lemma sqrt_25: "sqrt 25 = 5"
proof -
  have "sqrt ((5::real)\<^sup>2) = 5" by simp
  then show ?thesis by simp
qed

lemma one_obstacle_invariant: "field_invariant one_obstacle_world 100 [(3, 4, 0)]"
  by (simp add: field_invariant_def one_obstacle_world_def distance_def nearest_occupied_def unit_frame_def)

lemma one_obstacle_query:
  "CheckSphereCollision (grid_of one_obstacle_world) array_state (all_spheres (sphere_at 0.86 0.98 0.5 1)) 0 0
    = \<lparr>ret = True, dist_out = 5, state_out = (all_spheres (sphere_at 0.86 0.98 0.5 1)), logged = []\<rparr>"
proof -
  have e: "effective_radius 1 1 0 = Number (3 / 2)"
    by (simp add: b64)
  have o: "round_binary64 5 = Number 5"
    by (simp add: b64)
  show ?thesis
    using e o
    by (simp add: CheckSphereCollision_def grid_of_def one_obstacle_world_def unit_frame_def
        array_state_def sphere_at_def all_spheres_def world_to_grid_def in_bounds_def
        distance_def nearest_occupied_def sqrt_25)
qed

lemma one_obstacle_true_distance:
  "euclid (center_point (sphere_at 0.86 0.98 0.5 1)) (cell_center one_obstacle_world (3, 4, 0)) < 4.5"
proof -
  have "sqrt (19.36::real) < sqrt 20.25" by (simp only: real_sqrt_less_iff) simp
  also have "sqrt (20.25::real) = 4.5" 
  proof -
    have "sqrt ((4.5::real)\<^sup>2) = 4.5" by simp
    then show ?thesis by (simp add: power2_eq_square)
  qed
  finally show ?thesis
    by (simp add: center_point_def sphere_at_def one_obstacle_world_def unit_frame_def power2_eq_square)
qed


text \<open>
  C3, as stated, fails. In \<open>one_obstacle_world\<close> (unit cells, one occupied cell
  \<open>(3, 4, 0)\<close>, every cell storing the exact Euclidean distance to it) the sphere of
  radius 1 centred at \<open>(0.86, 0.98, 0.5)\<close> lies in cell \<open>(0, 0, 0)\<close>; the query reports
  no collision and \<open>dist = 5\<close>, while the centre of the sphere is at distance 4.4 from
  the centre of the occupied cell, which is less than \<open>5 - 1/2\<close>. The nearest-cell
  lookup is off by up to half the diagonal of a cell, not half its side.
\<close>

theorem half_cell_guard_counterexample:
  "field_invariant one_obstacle_world 100 [(3, 4, 0)]
   \<and> \<not> collides (CheckSphereCollision (grid_of one_obstacle_world) array_state
                    (all_spheres (sphere_at 0.86 0.98 0.5 1)) 0 0)
   \<and> dist_out (CheckSphereCollision (grid_of one_obstacle_world) array_state
                    (all_spheres (sphere_at 0.86 0.98 0.5 1)) 0 0)
       = euclid (cell_center one_obstacle_world (0, 0, 0)) (cell_center one_obstacle_world (3, 4, 0))
   \<and> euclid (center_point (sphere_center array_state (all_spheres (sphere_at 0.86 0.98 0.5 1)) 0))
        (cell_center one_obstacle_world (3, 4, 0))
       < dist_out (CheckSphereCollision (grid_of one_obstacle_world) array_state
                    (all_spheres (sphere_at 0.86 0.98 0.5 1)) 0 0)
         - resolution one_obstacle_world / 2"
proof -
  have "euclid (cell_center one_obstacle_world (0, 0, 0)) (cell_center one_obstacle_world (3, 4, 0)) = 5"
    by (simp add: one_obstacle_world_def unit_frame_def sqrt_25)
  moreover have "resolution one_obstacle_world = 1"
    by (simp add: one_obstacle_world_def unit_frame_def)
  moreover have "sphere_center array_state (all_spheres (sphere_at 0.86 0.98 0.5 1)) 0
                   = sphere_at 0.86 0.98 0.5 1"
    by (simp add: sphere_center_def array_state_def all_spheres_def)
  ultimately show ?thesis
    using one_obstacle_invariant one_obstacle_true_distance one_obstacle_query
    by (simp add: collides_def)
qed

text \<open>
  C3, amended. Let the grid be the voxel grid of the specification with a positive
  resolution \<open>r\<close>, and let its field satisfy the invariant for the occupied cells
  \<open>occ\<close>. If the query reports no collision and the distance \<open>d\<close>, then the centre of
  the sphere is at distance at least \<open>d - (sqrt 3 / 2) * r\<close> from the centre of every
  occupied cell.
\<close>

theorem half_diagonal_guard:
  assumes res: "0 < resolution g"
    and inv: "field_invariant g max_distance occ"
    and free: "\<not> collides (CheckSphereCollision (grid_of g) ops state padding sidx)"
    and occ: "q \<in> set occ"
  shows "dist_out (CheckSphereCollision (grid_of g) ops state padding sidx)
           - sqrt 3 / 2 * resolution g
         \<le> euclid (center_point (sphere_center ops state sidx)) (cell_center g q)"
proof -
  define ss where "ss = sphere_center ops state sidx"
  define c where "c = world_to_grid g (vx (pos ss)) (vy (pos ss)) (vz (pos ss))"
  have cell: "sphere_cell (grid_of g) ss = c"
    by (simp add: sphere_cell_def grid_of_def c_def)
  have inb: "cell_in_bounds (grid_of g) c"
    using not_collides_in_bounds [OF free] by (simp add: ss_def [symmetric] cell)
  have d: "dist_out (CheckSphereCollision (grid_of g) ops state padding sidx)
             = cell_distance (grid_of g) c"
    using CheckSphereCollision_in_bounds [of "grid_of g" ops state sidx padding] inb
    by (simp add: ss_def [symmetric] cell)
  obtain gx gy gz where cxyz: "c = (gx, gy, gz)" by (cases c) auto
  have "in_bounds g gx gy gz" using inb by (simp add: cell_in_bounds_def grid_of_def cxyz)
  then have "cell_distance (grid_of g) c = nearest_occupied g max_distance occ c"
    using inv by (simp add: field_invariant_def cell_distance_def grid_of_def cxyz)
  also have "\<dots> \<le> euclid (cell_center g c) (cell_center g q)"
    using occ by (rule nearest_occupied_le)
  also have "\<dots> \<le> euclid (cell_center g c) (center_point ss) + euclid (center_point ss) (cell_center g q)"
    by (rule euclid_triangle)
  finally have 1: "cell_distance (grid_of g) c
      \<le> euclid (cell_center g c) (center_point ss) + euclid (center_point ss) (cell_center g q)" .
  have "euclid (center_point ss) (cell_center g c) \<le> sqrt 3 / 2 * resolution g"
    unfolding center_point_def c_def by (rule lookup_error [OF res])
  moreover have "euclid (cell_center g c) (center_point ss) = euclid (center_point ss) (cell_center g c)"
    by (cases "cell_center g c"; cases "center_point ss") (simp add: power2_commute)
  ultimately show ?thesis using 1 d by (simp add: ss_def)
qed


theorem half_diagonal_guard_witness:
  "0 < resolution one_obstacle_world
   \<and> field_invariant one_obstacle_world 100 [(3, 4, 0)]
   \<and> \<not> collides (CheckSphereCollision (grid_of one_obstacle_world) array_state
                    (all_spheres (sphere_at 0.86 0.98 0.5 1)) 0 0)
   \<and> (3, 4, 0) \<in> set [(3, 4, 0) :: int \<times> int \<times> int]
   \<and> 5 - sqrt 3 / 2
       \<le> euclid (center_point (sphere_center array_state (all_spheres (sphere_at 0.86 0.98 0.5 1)) 0))
            (cell_center one_obstacle_world (3, 4, 0))"
proof -
  have r: "0 < resolution one_obstacle_world"
    by (simp add: one_obstacle_world_def unit_frame_def)
  have f: "\<not> collides (CheckSphereCollision (grid_of one_obstacle_world) array_state
                    (all_spheres (sphere_at 0.86 0.98 0.5 1)) 0 0)"
    using one_obstacle_query by (simp add: collides_def)
  have m: "(3, 4, 0) \<in> set [(3, 4, 0) :: int \<times> int \<times> int]" by simp
  have "resolution one_obstacle_world = 1"
    by (simp add: one_obstacle_world_def unit_frame_def)
  then show ?thesis
    using r f m half_diagonal_guard [OF r one_obstacle_invariant f m] one_obstacle_invariant
      one_obstacle_query
    by simp
qed

section \<open>Properties of the scenario reader\<close>

subsection \<open>Running the reader on the concrete files\<close>

lemmas clib = isspace_def isdigit_def tolower_def isxdigit_def digit_value_def digits_value_def
  c_str_def sign_prefix_def atoi_def exponent_part_def scale_def float_body_def hex_float_def
  dec_float_def prefix_ignoring_case_def atof_def Let_def

lemmas reader = GetCollisionObjects_def one_file_def scan_token_def fscanf_string_def EOF_def
  resize_count_def max_size_def vector_resize_def read_objects.simps read_object_def
  read_values.simps read_value_def feof_def GetCollisionCubes_def cubes_loop.simps
  GetCollisionCube_def box_def

lemma replicate_6: "replicate 6 x = [x, x, x, x, x, x]"
  by (simp add: eval_nat_numeral)

lemma replicate_3: "replicate 3 x = [x, x, x]"
  by (simp add: eval_nat_numeral)

text \<open>
  When the last line of the file of the specification is not ended by a newline, the
  last token ends at the end of the input, \<^verbatim>\<open>feof\<close> holds right after it has been
  scanned, and its value is not stored: the last dimension of \<open>box2\<close> stays 0.
\<close>

lemma unterminated_file_parse:
  "GetCollisionObjects (one_file ''objects.txt'' unterminated_file) clock ''objects.txt'' ''map''
     = Inr ([box (clock 0) ''map'' ''box1'' 0 0 0 0.1 0.1 0.1,
             box (clock 1) ''map'' ''box2'' 1 0 0 0.2 0.2 0], [ObjectsInFile 2])"
  by (simp add: reader clib unterminated_file_def replicate_6 replicate_3)

lemma short_file_parse:
  "GetCollisionObjects (one_file ''objects.txt'' short_file) clock ''objects.txt'' ''map''
     = Inr ([box (clock 0) ''map'' ''box1'' 0.5 0 2 0 0 0],
            [ObjectsInFile 1, ParsedStringTooShort, ParsedStringTooShort, ParsedStringTooShort])"
  by (simp add: reader clib short_file_def replicate_6 replicate_3)

lemma wordy_file_parse:
  "GetCollisionObjects (one_file ''objects.txt'' wordy_file) clock ''objects.txt'' ''map''
     = Inr ([box (clock 0) ''map'' ''box1'' 0 0 0 0 0 0], [ObjectsInFile 1])"
  by (simp add: reader clib wordy_file_def replicate_6 replicate_3)

subsection \<open>Scanning, token by token\<close>

lemma tokens_Nil: "dropWhile isspace s = [] \<Longrightarrow> tokens s = []"
  by (subst tokens.simps) simp

lemma tokens_Cons: "dropWhile isspace s \<noteq> [] \<Longrightarrow>
  tokens s = takeWhile (\<lambda>c. \<not> isspace c) (dropWhile isspace s)
           # tokens (dropWhile (\<lambda>c. \<not> isspace c) (dropWhile isspace s))"
  by (subst tokens.simps) simp

lemma tokens_empty [simp]: "tokens [] = []"
  by (simp add: tokens_Nil)

lemma fscanf_string_eof:
  assumes "dropWhile isspace (unread f) = []"
  shows "fscanf_string f buf = Inr (EOF, \<lparr>unread = [], eof_flag = True\<rparr>, buf)"
  unfolding fscanf_string_def Let_def using assms by (simp only: if_True refl)

lemma fscanf_string_token:
  assumes "dropWhile isspace (unread f) \<noteq> []"
    and "length (takeWhile (\<lambda>c. \<not> isspace c) (dropWhile isspace (unread f))) < 1024"
  shows "fscanf_string f buf =
     Inr (1, \<lparr>unread = dropWhile (\<lambda>c. \<not> isspace c) (dropWhile isspace (unread f)),
              eof_flag = (eof_flag f \<or> dropWhile (\<lambda>c. \<not> isspace c) (dropWhile isspace (unread f)) = [])\<rparr>,
          Some (takeWhile (\<lambda>c. \<not> isspace c) (dropWhile isspace (unread f))))"
proof -
  have "\<not> 1024 \<le> length (takeWhile (\<lambda>c. \<not> isspace c) (dropWhile isspace (unread f)))"
    using assms(2) by linarith
  then show ?thesis
    unfolding fscanf_string_def Let_def using assms(1) by (simp only: if_False refl)
qed

lemma scan_token_effect:
  assumes "fits st"
  shows "\<exists>st1. scan_token st = Inr st1
     \<and> fits st1
     \<and> remaining st1 = remaining st - 1
     \<and> printed st1 = printed st @ replicate (1 - remaining st) ParsedStringTooShort
     \<and> objects st1 = objects st
     \<and> object_ids st1 = object_ids st
     \<and> (sTemp st \<noteq> None \<or> 0 < remaining st \<longrightarrow> sTemp st1 \<noteq> None)"
proof (cases "dropWhile isspace (unread (fCfg st)) = []")
  case True
  then have t: "tokens (unread (fCfg st)) = []" by (rule tokens_Nil)
  have "scan_token st = Inr (st\<lparr>fCfg := \<lparr>unread = [], eof_flag = True\<rparr>, sTemp := sTemp st,
                  printed := printed st @ [ParsedStringTooShort]\<rparr>)"
    unfolding scan_token_def fscanf_string_eof [OF True] by (simp add: EOF_def)
  then show ?thesis using t
    by (simp add: fits_def remaining_def)
next
  case False
  define tok where "tok = takeWhile (\<lambda>c. \<not> isspace c) (dropWhile isspace (unread (fCfg st)))"
  define rest where "rest = dropWhile (\<lambda>c. \<not> isspace c) (dropWhile isspace (unread (fCfg st)))"
  have t: "tokens (unread (fCfg st)) = tok # tokens rest"
    unfolding tok_def rest_def using False by (rule tokens_Cons)
  then have len: "length tok < 1024" using assms by (simp add: fits_def)
  have "scan_token st = Inr (st\<lparr>fCfg := \<lparr>unread = rest, eof_flag = (eof_flag (fCfg st) \<or> rest = [])\<rparr>,
                  sTemp := Some tok, printed := printed st @ []\<rparr>)"
    unfolding scan_token_def
    using fscanf_string_token [OF False len [unfolded tok_def], of "sTemp st"]
    by (simp add: tok_def rest_def)
  then show ?thesis using t assms
    by (simp add: fits_def remaining_def)
qed

lemma advanced_trans:
  assumes "advanced j st st1" and "advanced k st1 st2"
  shows "advanced (j + k) st st2"
proof -
  have "(j - remaining st) + (k - (remaining st - j)) = (j + k) - remaining st" by linarith
  then have "replicate (j - remaining st) ParsedStringTooShort
               @ replicate (k - (remaining st - j)) ParsedStringTooShort
             = replicate ((j + k) - remaining st) ParsedStringTooShort"
    by (simp add: replicate_add [symmetric])
  then show ?thesis using assms by (simp add: advanced_def)
qed

lemma advanced_0:
  "fits st \<Longrightarrow> sTemp st \<noteq> None \<Longrightarrow> advanced 0 st st"
  by (simp add: advanced_def)

lemma read_value_effect:
  assumes "fits st" and "sTemp st \<noteq> None"
    and "i < length (objects st)" and "j < length (objects st ! i)"
  shows "\<exists>st1. read_value i j st = Inr st1
     \<and> advanced 1 st st1
     \<and> object_ids st1 = object_ids st
     \<and> (\<forall>k. length (objects st1 ! k) = length (objects st ! k))"
proof -
  from scan_token_effect [OF assms(1)] obtain st1 where h: "scan_token st = Inr st1
     \<and> fits st1
     \<and> remaining st1 = remaining st - 1
     \<and> printed st1 = printed st @ replicate (1 - remaining st) ParsedStringTooShort
     \<and> objects st1 = objects st
     \<and> object_ids st1 = object_ids st
     \<and> (sTemp st \<noteq> None \<or> 0 < remaining st \<longrightarrow> sTemp st1 \<noteq> None)" ..
  then have s: "scan_token st = Inr st1" and f: "fits st1"
    and r: "remaining st1 = remaining st - 1"
    and p: "printed st1 = printed st @ replicate (1 - remaining st) ParsedStringTooShort"
    and o: "objects st1 = objects st" and ids: "object_ids st1 = object_ids st"
    and t: "sTemp st \<noteq> None \<or> 0 < remaining st \<longrightarrow> sTemp st1 \<noteq> None"
    by simp_all
  from t assms(2) obtain buf where b: "sTemp st1 = Some buf" by auto
  have lens: "\<And>k. length ((objects st)[i := (objects st ! i)[j := v]] ! k) = length (objects st ! k)" for v
    using assms(3) by (case_tac "k = i") simp_all
  show ?thesis
    using s f r p o ids b assms(3,4) lens
    by (simp add: read_value_def advanced_def fits_def remaining_def)
qed


lemma read_values_effect:
  assumes "fits st" and "sTemp st \<noteq> None"
    and "i < length (objects st)" and "length (objects st ! i) = 6" and "j \<le> 6"
  shows "\<exists>st1. read_values i j st = Inr st1
     \<and> advanced (6 - j) st st1
     \<and> object_ids st1 = object_ids st
     \<and> (\<forall>k. length (objects st1 ! k) = length (objects st ! k))"
  using assms
proof (induction i j st rule: read_values.induct)
  case (1 i j st)
  show ?case
  proof (cases "j < 6")
    case False
    then have "j = 6" using "1.prems"(5) by simp
    then show ?thesis using "1.prems" by (simp add: read_values.simps advanced_0)
  next
    case True
    from read_value_effect [of st i j] "1.prems" True
    obtain st1 where h: "read_value i j st = Inr st1
       \<and> advanced 1 st st1
       \<and> object_ids st1 = object_ids st
       \<and> (\<forall>k. length (objects st1 ! k) = length (objects st ! k))" by auto
    then have rv: "read_value i j st = Inr st1" and a1: "advanced 1 st st1"
      and ids1: "object_ids st1 = object_ids st"
      and len1: "\<forall>k. length (objects st1 ! k) = length (objects st ! k)" by simp_all
    have pre: "fits st1" "sTemp st1 \<noteq> None" "i < length (objects st1)"
      "length (objects st1 ! i) = 6" "j + 1 \<le> 6"
      using a1 len1 "1.prems" True by (simp_all add: advanced_def)
    from "1.IH" [OF True rv pre]
    obtain st2 where h2: "read_values i (j + 1) st1 = Inr st2
       \<and> advanced (6 - (j + 1)) st1 st2
       \<and> object_ids st2 = object_ids st1
       \<and> (\<forall>k. length (objects st2 ! k) = length (objects st1 ! k))" ..
    then have a2: "advanced (6 - (j + 1)) st1 st2" by simp
    have "advanced (1 + (6 - (j + 1))) st st2" using a1 a2 by (rule advanced_trans)
    moreover have "1 + (6 - (j + 1)) = 6 - j" using True by simp
    ultimately have "advanced (6 - j) st st2" by simp
    moreover have "read_values i j st = read_values i (j + 1) st1"
      using True rv by (subst read_values.simps) simp
    ultimately show ?thesis using h2 ids1 len1 by simp
  qed
qed

lemma vector_resize_length [simp]: "length (vector_resize n v xs) = n"
  by (simp add: vector_resize_def)

lemma read_object_effect:
  assumes "fits st" and "sTemp st \<noteq> None" and "i < length (objects st)"
  shows "\<exists>st1. read_object i st = Inr st1
     \<and> advanced 7 st st1
     \<and> length (object_ids st1) = length (object_ids st) + 1
     \<and> length (objects st1 ! i) = 6
     \<and> (\<forall>k. k \<noteq> i \<longrightarrow> length (objects st1 ! k) = length (objects st ! k))"
proof -
  from scan_token_effect [OF assms(1)] obtain st1 where h: "scan_token st = Inr st1
     \<and> fits st1
     \<and> remaining st1 = remaining st - 1
     \<and> printed st1 = printed st @ replicate (1 - remaining st) ParsedStringTooShort
     \<and> objects st1 = objects st
     \<and> object_ids st1 = object_ids st
     \<and> (sTemp st \<noteq> None \<or> 0 < remaining st \<longrightarrow> sTemp st1 \<noteq> None)" ..
  then have s: "scan_token st = Inr st1" and f: "fits st1"
    and r: "remaining st1 = remaining st - 1"
    and p: "printed st1 = printed st @ replicate (1 - remaining st) ParsedStringTooShort"
    and o: "objects st1 = objects st" and ids: "object_ids st1 = object_ids st"
    and t: "sTemp st \<noteq> None \<or> 0 < remaining st \<longrightarrow> sTemp st1 \<noteq> None"
    by simp_all
  from t assms(2) obtain buf where b: "sTemp st1 = Some buf" by auto
  define st2 where "st2 = st1\<lparr>object_ids := object_ids st1 @ [c_str buf],
                        objects := (objects st1)[i := vector_resize 6 (Finite 0) (objects st1 ! i)]\<rparr>"
  have a1: "advanced 1 st st2"
    using f r p o b by (simp add: advanced_def st2_def fits_def remaining_def)
  have ro: "read_object i st = read_values i 0 st2"
    using s b assms(3) o by (simp add: read_object_def st2_def)
  have pre: "fits st2" "sTemp st2 \<noteq> None" "i < length (objects st2)"
    "length (objects st2 ! i) = 6" "(0::nat) \<le> 6"
    using a1 assms(3) o by (simp_all add: advanced_def) (simp add: st2_def)
  from read_values_effect [OF pre]
  obtain st3 where h3: "read_values i 0 st2 = Inr st3
     \<and> advanced (6 - 0) st2 st3
     \<and> object_ids st3 = object_ids st2
     \<and> (\<forall>k. length (objects st3 ! k) = length (objects st2 ! k))" ..
  then have a2: "advanced 6 st2 st3" by simp
  have "advanced (1 + 6) st st3" using a1 a2 by (rule advanced_trans)
  then have a: "advanced 7 st st3" by simp
  have "length (object_ids st3) = length (object_ids st) + 1"
    using h3 ids by (simp add: st2_def)
  moreover have "length (objects st3 ! i) = 6" using h3 pre(4) by simp
  moreover have "\<forall>k. k \<noteq> i \<longrightarrow> length (objects st3 ! k) = length (objects st ! k)"
    using h3 o by (simp add: st2_def)
  ultimately show ?thesis using ro h3 a by simp
qed

lemma read_objects_effect:
  assumes "fits st" and "sTemp st \<noteq> None"
    and "0 \<le> i" and "i \<le> num_obs"
    and "length (objects st) = nat num_obs"
    and "length (object_ids st) = nat i"
    and "\<forall>k < nat i. length (objects st ! k) = 6"
  shows "\<exists>st1. read_objects i num_obs st = Inr st1
     \<and> advanced (7 * nat (num_obs - i)) st st1
     \<and> length (object_ids st1) = nat num_obs
     \<and> (\<forall>k < nat num_obs. length (objects st1 ! k) = 6)"
  using assms
proof (induction i num_obs st rule: read_objects.induct)
  case (1 i num_obs st)
  show ?case
  proof (cases "i < num_obs")
    case False
    then have "i = num_obs" using "1.prems"(4) by simp
    then show ?thesis using "1.prems" by (simp add: read_objects.simps advanced_0)
  next
    case True
    have "nat i < length (objects st)" using True "1.prems"(3,5) by simp
    from read_object_effect [OF "1.prems"(1,2) this]
    obtain st1 where h: "read_object (nat i) st = Inr st1
       \<and> advanced 7 st st1
       \<and> length (object_ids st1) = length (object_ids st) + 1
       \<and> length (objects st1 ! nat i) = 6
       \<and> (\<forall>k. k \<noteq> nat i \<longrightarrow> length (objects st1 ! k) = length (objects st ! k))" ..
    then have ro: "read_object (nat i) st = Inr st1" and a1: "advanced 7 st st1"
      and ids1: "length (object_ids st1) = length (object_ids st) + 1"
      and row: "length (objects st1 ! nat i) = 6"
      and others: "\<forall>k. k \<noteq> nat i \<longrightarrow> length (objects st1 ! k) = length (objects st ! k)"
      by simp_all
    have rows: "\<forall>k < nat (i + 1). length (objects st1 ! k) = 6"
    proof (intro allI impI)
      fix k assume "k < nat (i + 1)"
      then have "k < nat i \<or> k = nat i" using "1.prems"(3) by (auto simp add: nat_add_distrib)
      then show "length (objects st1 ! k) = 6" using row others "1.prems"(7) by auto
    qed
    have pre: "fits st1" "sTemp st1 \<noteq> None" "0 \<le> i + 1" "i + 1 \<le> num_obs"
      "length (objects st1) = nat num_obs" "length (object_ids st1) = nat (i + 1)"
      using a1 ids1 "1.prems" True by (simp_all add: advanced_def nat_add_distrib)
    from "1.IH" [OF True ro pre rows]
    obtain st2 where h2: "read_objects (i + 1) num_obs st1 = Inr st2
       \<and> advanced (7 * nat (num_obs - (i + 1))) st1 st2
       \<and> length (object_ids st2) = nat num_obs
       \<and> (\<forall>k < nat num_obs. length (objects st2 ! k) = 6)" ..
    then have a2: "advanced (7 * nat (num_obs - (i + 1))) st1 st2" by simp
    have "advanced (7 + 7 * nat (num_obs - (i + 1))) st st2" using a1 a2 by (rule advanced_trans)
    moreover have "7 + 7 * nat (num_obs - (i + 1)) = 7 * nat (num_obs - i)"
      using True by (simp add: nat_diff_distrib algebra_simps) 
    ultimately have "advanced (7 * nat (num_obs - i)) st st2" by simp
    moreover have "read_objects i num_obs st = read_objects (i + 1) num_obs st1"
      using True ro by (subst read_objects.simps) simp
    ultimately show ?thesis using h2 by simp
  qed
qed


subsection \<open>The boxes\<close>

lemma GetCollisionCube_box:
  assumes "GetCollisionCube now p d frame ident = Inr obj"
    and "orientation p = identity_orientation"
  shows "axis_aligned_box obj"
  using assms by (auto simp add: GetCollisionCube_def axis_aligned_box_def split: if_splits)

lemma cubes_loop_boxes:
  assumes "cubes_loop clock rows ids frame i st = Inr st1"
    and "orientation (pose st) = identity_orientation"
    and "\<forall>obj \<in> set (objs st). axis_aligned_box obj"
  shows "\<forall>obj \<in> set (objs st1). axis_aligned_box obj"
  using assms
proof (induction clock rows ids frame i st rule: cubes_loop.induct)
  case (1 clock rows ids frame i st)
  show ?case
  proof (cases "i < length rows")
    case False
    then have "st1 = st" using "1.prems"(1) by (simp add: cubes_loop.simps)
    then show ?thesis using "1.prems"(3) by simp
  next
    case True
    define pose1 where "pose1 = (pose st)\<lparr>position := \<lparr>px = rows ! i ! 0, py = rows ! i ! 1, pz = rows ! i ! 2\<rparr>\<rparr>"
    define dims1 where "dims1 = (dims st)[0 := rows ! i ! 3, 1 := rows ! i ! 4, 2 := rows ! i ! 5]"
    have ok: "\<not> (length (rows ! i) < 6 \<or> length ids \<le> i)"
      using "1.prems"(1) True by (subst (asm) cubes_loop.simps) (auto split: if_splits)
    obtain obj where c: "GetCollisionCube (clock i) pose1 dims1 frame (ids ! i) = Inr obj"
      using "1.prems"(1) True ok
      by (subst (asm) cubes_loop.simps)
        (auto simp add: Let_def pose1_def dims1_def split: sum.splits)
    have o1: "orientation pose1 = identity_orientation" using "1.prems"(2) by (simp add: pose1_def)
    have b: "axis_aligned_box obj" using c o1 by (rule GetCollisionCube_box)
    have step: "cubes_loop clock rows ids frame (i + 1)
                  \<lparr>objs = objs st @ [obj], dims = dims1, pose = pose1\<rparr> = Inr st1"
      using "1.prems"(1) True ok c
      by (subst (asm) cubes_loop.simps) (simp add: Let_def pose1_def dims1_def)
    show ?thesis
      using "1.IH" [OF True ok pose1_def dims1_def c step] o1 b "1.prems"(3) by simp
  qed
qed

lemma GetCollisionCubes_boxes:
  assumes "GetCollisionCubes clock rows ids frame = Inr (cubes, msgs)"
  shows "\<forall>obj \<in> set cubes. axis_aligned_box obj"
proof (cases "length ids \<noteq> length rows")
  case True
  then have "cubes = []" using assms by (simp add: GetCollisionCubes_def)
  then show ?thesis by simp
next
  case False
  let ?st0 = "\<lparr>objs = [], dims = replicate 3 (Finite 0),
                 pose = \<lparr>position = \<lparr>px = Finite 0, py = Finite 0, pz = Finite 0\<rparr>,
                         orientation = \<lparr>qx = 0, qy = 0, qz = 0, qw = 1\<rparr>\<rparr>\<rparr>"
  obtain st where l: "cubes_loop clock rows ids frame 0 ?st0 = Inr st" and "cubes = objs st"
    using assms False by (auto simp add: GetCollisionCubes_def Let_def split: sum.splits)
  moreover have "\<forall>obj \<in> set (objs st). axis_aligned_box obj"
    by (rule cubes_loop_boxes [OF l]) (simp_all add: identity_orientation_def)
  ultimately show ?thesis by simp
qed

lemma cubes_loop_total:
  assumes "length ids = length rows"
    and "\<forall>k < length rows. length (rows ! k) = 6"
    and "length (dims st) = 3"
  shows "\<exists>st1. cubes_loop clock rows ids frame i st = Inr st1
           \<and> length (objs st1) = length (objs st) + (length rows - i)"
  using assms
proof (induction clock rows ids frame i st rule: cubes_loop.induct)
  case (1 clock rows ids frame i st)
  show ?case
  proof (cases "i < length rows")
    case False
    then show ?thesis by (simp add: cubes_loop.simps)
  next
    case True
    define pose1 where "pose1 = (pose st)\<lparr>position := \<lparr>px = rows ! i ! 0, py = rows ! i ! 1, pz = rows ! i ! 2\<rparr>\<rparr>"
    define dims1 where "dims1 = (dims st)[0 := rows ! i ! 3, 1 := rows ! i ! 4, 2 := rows ! i ! 5]"
    have ok: "\<not> (length (rows ! i) < 6 \<or> length ids \<le> i)"
      using True "1.prems"(1,2) by simp
    have d3: "length dims1 = 3" using "1.prems"(3) by (simp add: dims1_def)
    define obj where "obj = \<lparr>header = \<lparr>frame_id = frame, stamp = clock i\<rparr>,
                object_id = ids ! i,
                primitives = [\<lparr>prim_type = BOX, dimensions = [dims1 ! 0, dims1 ! 1, dims1 ! 2]\<rparr>],
                primitive_poses = [pose1],
                operation = ADD\<rparr>"
    have c: "GetCollisionCube (clock i) pose1 dims1 frame (ids ! i) = Inr obj"
      using d3 by (simp add: GetCollisionCube_def obj_def)
    have step: "cubes_loop clock rows ids frame i st
                  = cubes_loop clock rows ids frame (i + 1)
                      \<lparr>objs = objs st @ [obj], dims = dims1, pose = pose1\<rparr>"
      using True ok c
      by (subst cubes_loop.simps) (simp add: Let_def pose1_def dims1_def)
    from "1.IH" [OF True ok pose1_def dims1_def c "1.prems"(1,2)] d3
    obtain st1 where "cubes_loop clock rows ids frame (i + 1)
                      \<lparr>objs = objs st @ [obj], dims = dims1, pose = pose1\<rparr> = Inr st1
           \<and> length (objs st1) = length (objs st @ [obj]) + (length rows - (i + 1))"
      by auto
    then show ?thesis using step True by simp
  qed
qed

lemma GetCollisionCubes_total:
  assumes "length ids = length rows"
    and "\<forall>k < length rows. length (rows ! k) = 6"
  shows "\<exists>cubes. GetCollisionCubes clock rows ids frame = Inr (cubes, [])
           \<and> length cubes = length rows"
proof -
  let ?st0 = "\<lparr>objs = [], dims = replicate 3 (Finite 0),
                 pose = \<lparr>position = \<lparr>px = Finite 0, py = Finite 0, pz = Finite 0\<rparr>,
                         orientation = \<lparr>qx = 0, qy = 0, qz = 0, qw = 1\<rparr>\<rparr>\<rparr>"
  have "length (dims ?st0) = 3" by simp
  from cubes_loop_total [OF assms this, of clock frame 0]
  obtain st1 where "cubes_loop clock rows ids frame 0 ?st0 = Inr st1
           \<and> length (objs st1) = length (objs ?st0) + (length rows - 0)" ..
  then show ?thesis using assms(1) by (simp add: GetCollisionCubes_def)
qed

lemma atoi_range:
  assumes "atoi s = Some n"
  shows "- (2 ^ 31) \<le> n \<and> n < 2 ^ 31"
  using assms by (auto simp add: atoi_def Let_def split: prod.splits if_splits)

lemma resize_count_negative:
  assumes "- (2 ^ 31) \<le> n" and "n < 0"
  shows "resize_count n = Inl LengthError"
proof -
  have "uint (word_of_int n :: 64 word) = n mod 2 ^ 64" by (simp add: uint_word_of_int take_bit_eq_mod)
  also have "\<dots> = n + 2 ^ 64"
    using assms by (intro int_mod_pos_eq [where q = "- 1"]) simp_all
  finally have "unat (word_of_int n :: 64 word) = nat (n + 2 ^ 64)" by (simp add: unat_eq_nat_uint)
  moreover have "max_size < nat (n + 2 ^ 64)" using assms by (simp add: max_size_def)
  ultimately show ?thesis by (simp add: resize_count_def)
qed

lemma resize_count_nonnegative:
  assumes "0 \<le> n" and "n < 2 ^ 31"
  shows "resize_count n = Inr (nat n)"
proof -
  have "uint (word_of_int n :: 64 word) = n mod 2 ^ 64" by (simp add: uint_word_of_int take_bit_eq_mod)
  also have "\<dots> = n" using assms by simp
  finally have "unat (word_of_int n :: 64 word) = nat n" by (simp add: unat_eq_nat_uint)
  moreover have "\<not> max_size < nat n" using assms by (simp add: max_size_def)
  ultimately show ?thesis by (simp add: resize_count_def)
qed

lemma first_scan:
  assumes "tokens contents = t # ts" and "length t < 1024"
  shows "\<exists>f. scan_token \<lparr>fCfg = \<lparr>unread = contents, eof_flag = False\<rparr>, sTemp = None,
                              object_ids = [], objects = [], printed = []\<rparr>
           = Inr \<lparr>fCfg = f, sTemp = Some t, object_ids = [], objects = [], printed = []\<rparr>
         \<and> tokens (unread f) = ts"
proof -
  have ne: "dropWhile isspace contents \<noteq> []"
    using assms(1) tokens_Nil [of contents] by auto
  have t: "t = takeWhile (\<lambda>c. \<not> isspace c) (dropWhile isspace contents)"
    and ts: "ts = tokens (dropWhile (\<lambda>c. \<not> isspace c) (dropWhile isspace contents))"
    using assms(1) tokens_Cons [OF ne] by simp_all
  have "length (takeWhile (\<lambda>c. \<not> isspace c) (dropWhile isspace (unread \<lparr>unread = contents, eof_flag = False\<rparr>))) < 1024"
    using assms(2) t by simp
  from fscanf_string_token [of "\<lparr>unread = contents, eof_flag = False\<rparr>", OF _ this, of None] ne
  show ?thesis by (simp add: scan_token_def t ts)
qed


lemma GetCollisionObjects_missing_file:
  "fopen filename = None \<Longrightarrow>
     GetCollisionObjects fopen clock filename frame = Inr ([], [UnableToOpenObjectsFile])"
  by (simp add: GetCollisionObjects_def)

lemma GetCollisionObjects_counted:
  assumes fo: "fopen filename = Some contents"
    and toks: "tokens contents = t # ts"
    and fit: "\<forall>u \<in> set (t # ts). length u < 1024"
    and cnt: "atoi (c_str t) = Some n"
    and nonneg: "0 \<le> n"
  shows "\<exists>cubes. GetCollisionObjects fopen clock filename frame
           = Inr (cubes, ObjectsInFile n # replicate (7 * nat n - length ts) ParsedStringTooShort)
         \<and> length cubes = nat n"
proof -
  have "length t < 1024" using fit by simp
  from first_scan [OF toks this] obtain f where
    sc: "scan_token \<lparr>fCfg = \<lparr>unread = contents, eof_flag = False\<rparr>, sTemp = None,
                              object_ids = [], objects = [], printed = []\<rparr>
           = Inr \<lparr>fCfg = f, sTemp = Some t, object_ids = [], objects = [], printed = []\<rparr>"
    and rest: "tokens (unread f) = ts" by auto
  have rng: "n < 2 ^ 31" using atoi_range [OF cnt] by simp
  have rc: "resize_count n = Inr (nat n)" using nonneg rng by (rule resize_count_nonnegative)
  define st0 where "st0 = \<lparr>fCfg = f, sTemp = Some t, object_ids = [],
                           objects = vector_resize (nat n) [] [], printed = [ObjectsInFile n]\<rparr>"
  have pre: "fits st0" "sTemp st0 \<noteq> None" "(0::int) \<le> 0" "0 \<le> n"
    "length (objects st0) = nat n" "length (object_ids st0) = nat 0"
    "\<forall>k < nat 0. length (objects st0 ! k) = 6"
    using fit rest nonneg by (simp_all add: st0_def fits_def)
  from read_objects_effect [OF pre] obtain st2 where h: "read_objects 0 n st0 = Inr st2
     \<and> advanced (7 * nat (n - 0)) st0 st2
     \<and> length (object_ids st2) = nat n
     \<and> (\<forall>k < nat n. length (objects st2 ! k) = 6)" ..
  then have ro: "read_objects 0 n st0 = Inr st2" and adv: "advanced (7 * nat n) st0 st2"
    and ids: "length (object_ids st2) = nat n"
    and rows: "\<forall>k < nat n. length (objects st2 ! k) = 6" by simp_all
  have len: "length (objects st2) = nat n" using adv pre(5) by (simp add: advanced_def)
  have pr: "printed st2 = ObjectsInFile n # replicate (7 * nat n - length ts) ParsedStringTooShort"
    using adv rest by (simp add: advanced_def st0_def remaining_def)
  have "length (object_ids st2) = length (objects st2)" using ids len by simp
  moreover have "\<forall>k < length (objects st2). length (objects st2 ! k) = 6" using rows len by simp
  ultimately obtain cubes where
    gc: "GetCollisionCubes clock (objects st2) (object_ids st2) frame = Inr (cubes, [])"
    and lc: "length cubes = length (objects st2)"
    using GetCollisionCubes_total [of "object_ids st2" "objects st2" clock frame] by auto
  have "GetCollisionObjects fopen clock filename frame = Inr (cubes, printed st2 @ [])"
    using fo sc cnt rc ro gc by (simp add: GetCollisionObjects_def st0_def)
  then show ?thesis using pr lc len by simp
qed


subsection \<open>Numbers written without a decimal point\<close>




















subsection \<open>The claims about the reader\<close>

text \<open>
  C5. The file of the specification, \<^verbatim>\<open>2\nbox1 0 0 0 0.1 0.1 0.1\nbox2 1 0 0 0.2 0.2 0.2\n\<close>,
  is read as exactly two collision objects: \<open>box1\<close> at position \<open>(0, 0, 0)\<close> with
  dimensions \<open>(0.1, 0.1, 0.1)\<close>, and \<open>box2\<close> at \<open>(1, 0, 0)\<close> with \<open>(0.2, 0.2, 0.2)\<close>;
  the only message is the count of objects. Every line of the file, the last one
  included, ends with a newline.
\<close>

theorem scenario_file_two_boxes:
  "GetCollisionObjects (one_file ''objects.txt'' scenario_file) clock ''objects.txt'' ''map''
     = Inr ([box (clock 0) ''map'' ''box1'' 0 0 0 0.1 0.1 0.1,
             box (clock 1) ''map'' ''box2'' 1 0 0 0.2 0.2 0.2], [ObjectsInFile 2])"
  by (simp add: reader clib scenario_file_def replicate_6 replicate_3)

text \<open>
  C9. Every collision object that the reader returns, for any file, has the operation
  ADD, exactly one primitive, of type BOX, and exactly one pose, whose orientation is
  the identity quaternion \<open>(0, 0, 0, 1)\<close>.
\<close>

theorem scenario_objects_are_added_boxes:
  assumes "GetCollisionObjects fopen clock filename frame = Inr (cubes, msgs)"
  shows "\<forall>obj \<in> set cubes. axis_aligned_box obj"
proof (cases "fopen filename")
  case None
  then have "cubes = []" using assms by (simp add: GetCollisionObjects_def)
  then show ?thesis by simp
next
  case (Some contents)
  then obtain rows ids ms where "GetCollisionCubes clock rows ids frame = Inr (cubes, ms)"
    using assms
    by (auto simp add: GetCollisionObjects_def split: sum.splits option.splits)
  then show ?thesis by (rule GetCollisionCubes_boxes)
qed


theorem scenario_objects_are_added_boxes_witness:
  "GetCollisionObjects (one_file ''objects.txt'' wordy_file) wall_clock ''objects.txt'' ''map''
     = Inr ([box (wall_clock 0) ''map'' ''box1'' 0 0 0 0 0 0], [ObjectsInFile 1])
   \<and> axis_aligned_box (box (wall_clock 0) ''map'' ''box1'' 0 0 0 0 0 0)"
  using wordy_file_parse [of wall_clock]
    scenario_objects_are_added_boxes [OF wordy_file_parse [of wall_clock]]
  by simp

text \<open>
  C4, as stated, fails for a short read and for a token that is no number. The file
  \<^verbatim>\<open>1\nbox1 0.5 abc 2\n\<close> declares one record and stops after four of its seven
  tokens: the reader prints its message three times and still returns one object, with
  0 for \<^verbatim>\<open>abc\<close> and for the three missing fields. The file \<^verbatim>\<open>1\nbox1 a b c d e f\n\<close>
  holds six tokens that are no numbers: the reader returns one object, all of whose
  numbers are 0, and prints nothing but the count.
\<close>

theorem scenario_errors_counterexample:
  "GetCollisionObjects (one_file ''objects.txt'' short_file) wall_clock ''objects.txt'' ''map''
     = Inr ([box (wall_clock 0) ''map'' ''box1'' 0.5 0 2 0 0 0],
            [ObjectsInFile 1, ParsedStringTooShort, ParsedStringTooShort, ParsedStringTooShort])
   \<and> GetCollisionObjects (one_file ''objects.txt'' wordy_file) wall_clock ''objects.txt'' ''map''
     = Inr ([box (wall_clock 0) ''map'' ''box1'' 0 0 0 0 0 0], [ObjectsInFile 1])"
  using short_file_parse [of wall_clock] wordy_file_parse [of wall_clock] by simp

text \<open>
  C4, amended. A file that cannot be opened gives the empty object set and the message
  that the file could not be opened. A file that opens, whose first token is read by
  \<^verbatim>\<open>atoi\<close> as a count \<open>n \<ge> 0\<close> and whose tokens all fit the buffer, gives exactly \<open>n\<close>
  objects, whatever follows the count; the messages are the count of objects and then
  \<^verbatim>\<open>Parsed string has length < 1.\<close> once for each of the \<open>7 * n\<close> expected tokens that
  the file does not hold. So a short read is reported, but does not empty the object
  set, and a token that is no number is not reported at all.
\<close>

theorem scenario_errors_amended:
  "(fopen filename = None \<longrightarrow>
      GetCollisionObjects fopen clock filename frame = Inr ([], [UnableToOpenObjectsFile]))
   \<and> (fopen filename = Some contents \<and> tokens contents = t # ts
        \<and> (\<forall>u \<in> set (t # ts). length u < 1024) \<and> atoi (c_str t) = Some n \<and> 0 \<le> n \<longrightarrow>
      (\<exists>cubes. GetCollisionObjects fopen clock filename frame
           = Inr (cubes, ObjectsInFile n # replicate (7 * nat n - length ts) ParsedStringTooShort)
         \<and> length cubes = nat n))"
  using GetCollisionObjects_missing_file [of fopen filename clock frame]
    GetCollisionObjects_counted [of fopen filename contents t ts n clock frame]
  by blast

theorem scenario_errors_amended_witness:
  "one_file ''objects.txt'' short_file ''missing.txt'' = None
   \<and> GetCollisionObjects (one_file ''objects.txt'' short_file) wall_clock ''missing.txt'' ''map''
       = Inr ([], [UnableToOpenObjectsFile])
   \<and> one_file ''objects.txt'' short_file ''objects.txt'' = Some short_file
   \<and> tokens short_file = ''1'' # [''box1'', ''0.5'', ''abc'', ''2'']
   \<and> list_all (\<lambda>u. length u < 1024) (''1'' # [''box1'', ''0.5'', ''abc'', ''2''])
   \<and> atoi (c_str ''1'') = Some 1 \<and> (0::int) \<le> 1
   \<and> (\<exists>cubes. GetCollisionObjects (one_file ''objects.txt'' short_file) wall_clock ''objects.txt'' ''map''
           = Inr (cubes, [ObjectsInFile 1, ParsedStringTooShort, ParsedStringTooShort,
                          ParsedStringTooShort])
         \<and> length cubes = 1)"
proof -
  have a: "one_file ''objects.txt'' short_file ''missing.txt'' = None"
    by (simp add: one_file_def)
  have b: "one_file ''objects.txt'' short_file ''objects.txt'' = Some short_file"
    by (simp add: one_file_def)
  have c: "tokens short_file = ''1'' # [''box1'', ''0.5'', ''abc'', ''2'']"
    by (simp add: short_file_def tokens.simps isspace_def)
  have d: "\<forall>u \<in> set (''1'' # [''box1'', ''0.5'', ''abc'', ''2'']). length u < 1024"
    by simp
  have e: "atoi (c_str ''1'') = Some 1" by (simp add: clib)
  have r: "replicate (7 * nat 1 - length [''box1'', ''0.5'', ''abc'', ''2'']) ParsedStringTooShort
             = [ParsedStringTooShort, ParsedStringTooShort, ParsedStringTooShort]"
    by (simp add: eval_nat_numeral)
  show ?thesis
    using a b c d e r list_all_iff [of "\<lambda>u. length u < 1024"]
      scenario_errors_amended [of "one_file ''objects.txt'' short_file" "''missing.txt''"
        wall_clock "''map''" short_file "''1''" "[''box1'', ''0.5'', ''abc'', ''2'']" 1]
      scenario_errors_amended [of "one_file ''objects.txt'' short_file" "''objects.txt''"
        wall_clock "''map''" short_file "''1''" "[''box1'', ''0.5'', ''abc'', ''2'']" 1]
    by simp
qed

text \<open>
  C10. When the first token of the file is read by \<^verbatim>\<open>atoi\<close> as a negative count,
  \<^verbatim>\<open>objects.resize(num_obs)\<close> is asked for more elements than a vector can hold, and the
  call ends with \<^verbatim>\<open>std::length_error\<close> instead of returning an object set.
\<close>

theorem negative_count_throws:
  assumes fo: "fopen filename = Some contents"
    and toks: "tokens contents = t # ts"
    and fit: "length t < 1024"
    and cnt: "atoi (c_str t) = Some n"
    and neg: "n < 0"
  shows "GetCollisionObjects fopen clock filename frame = Inl LengthError"
proof -
  from first_scan [OF toks fit] obtain f where
    sc: "scan_token \<lparr>fCfg = \<lparr>unread = contents, eof_flag = False\<rparr>, sTemp = None,
                              object_ids = [], objects = [], printed = []\<rparr>
           = Inr \<lparr>fCfg = f, sTemp = Some t, object_ids = [], objects = [], printed = []\<rparr>"
    by auto
  have "- (2 ^ 31) \<le> n" using atoi_range [OF cnt] by simp
  then have "resize_count n = Inl LengthError" using neg by (rule resize_count_negative)
  then show ?thesis using fo sc cnt by (simp add: GetCollisionObjects_def)
qed


theorem negative_count_throws_witness:
  "one_file ''objects.txt'' negative_file ''objects.txt'' = Some negative_file
   \<and> tokens negative_file = ''-1'' # [''box1'', ''0'', ''0'', ''0'', ''1'', ''1'', ''1'']
   \<and> length ''-1'' < 1024
   \<and> atoi (c_str ''-1'') = Some (- 1) \<and> (- 1 :: int) < 0
   \<and> GetCollisionObjects (one_file ''objects.txt'' negative_file) wall_clock ''objects.txt'' ''map''
       = Inl LengthError"
proof -
  have a: "one_file ''objects.txt'' negative_file ''objects.txt'' = Some negative_file"
    by (simp add: one_file_def)
  have b: "tokens negative_file = ''-1'' # [''box1'', ''0'', ''0'', ''0'', ''1'', ''1'', ''1'']"
    by (simp add: negative_file_def tokens.simps isspace_def)
  have c: "length ''-1'' < 1024" by simp
  have d: "atoi (c_str ''-1'') = Some (- 1)" by (simp add: clib)
  have e: "(- 1 :: int) < 0" by simp
  show ?thesis
    using a b c d e
      negative_count_throws [of "one_file ''objects.txt'' negative_file" "''objects.txt''"
        negative_file "''-1''" "[''box1'', ''0'', ''0'', ''0'', ''1'', ''1'', ''1'']" "- 1"
        wall_clock "''map''"]
    by simp
qed





section \<open>Properties of MakeRobotState\<close>

lemma find_joint_spec:
  assumes "length (js_name (joint_state m)) \<le> length (js_position (joint_state m))"
  shows "find_joint m v i
           = Inr (map_of (zip (drop i (js_name (joint_state m))) (drop i (js_position (joint_state m)))) v)"
  using assms
proof (induction m v i rule: find_joint.induct)
  case (1 m v i)
  let ?ns = "js_name (joint_state m)" and ?ps = "js_position (joint_state m)"
  show ?case
  proof (cases "i < length ?ns")
    case False
    then show ?thesis by (subst find_joint.simps) simp
  next
    case True
    then have ip: "i < length ?ps" using "1.prems" by simp
    have dn: "drop i ?ns = ?ns ! i # drop (Suc i) ?ns" using True by (simp add: Cons_nth_drop_Suc)
    have dp: "drop i ?ps = ?ps ! i # drop (Suc i) ?ps" using ip by (simp add: Cons_nth_drop_Suc)
    show ?thesis
    proof (cases "?ns ! i = v")
      case True
      then show ?thesis using \<open>i < length ?ns\<close> ip
        by (subst find_joint.simps) (simp add: dn dp)
    next
      case False
      have "find_joint m v i = find_joint m v (i + 1)"
        using True False by (subst find_joint.simps) simp
      then show ?thesis using "1.IH" [OF True False "1.prems"] False by (simp add: dn dp)
    qed
  qed
qed

lemma find_joint_recorded:
  assumes "length (js_name (joint_state m)) \<le> length (js_position (joint_state m))"
  shows "find_joint m v 0 = Inr (recorded_position m v)"
  using find_joint_spec [OF assms, of v 0] by (simp add: recorded_position_def)

lemma zip_take_left: "zip xs (take (length xs) ys) = zip xs ys"
proof (induction xs arbitrary: ys)
  case Nil
  show ?case by simp
next
  case (Cons x xs)
  then show ?case by (cases ys) simp_all
qed

lemma recorded_position_None:
  assumes "length (js_name (joint_state m)) \<le> length (js_position (joint_state m))"
  shows "recorded_position m v = None \<longleftrightarrow> v \<notin> set (js_name (joint_state m))"
proof -
  let ?ns = "js_name (joint_state m)" and ?ps = "js_position (joint_state m)"
  have "zip ?ns ?ps = zip ?ns (take (length ?ns) ?ps)"
    by (simp only: zip_take_left)
  moreover have "length ?ns = length (take (length ?ns) ?ps)" using assms by simp
  ultimately show ?thesis
    using map_of_zip_is_None [of ?ns "take (length ?ns) ?ps" v]
    by (simp add: recorded_position_def)
qed

lemma make_state_found:
  assumes "length (js_name (joint_state m)) \<le> length (js_position (joint_state m))"
    and "set joints \<subseteq> set (js_name (joint_state m))"
  shows "make_state m joints state
           = Inr (state @ map (\<lambda>v. the (recorded_position m v)) joints, True, [])"
  using assms(2)
proof (induction joints arbitrary: state)
  case Nil
  show ?case by simp
next
  case (Cons v vs)
  have "recorded_position m v \<noteq> None"
    using Cons.prems recorded_position_None [OF assms(1), of v] by simp
  then obtain p where p: "recorded_position m v = Some p" by auto
  have "make_state m (v # vs) state = make_state m vs (state @ [p])"
    by (simp add: find_joint_recorded [OF assms(1)] p)
  then show ?case using Cons p by simp
qed

lemma make_state_missing:
  assumes "length (js_name (joint_state m)) \<le> length (js_position (joint_state m))"
    and "\<not> set joints \<subseteq> set (js_name (joint_state m))"
  shows "\<exists>v. v \<in> set joints \<and> v \<notin> set (js_name (joint_state m))
           \<and> make_state m joints state = Inr ([], False, [JointVariableNotFound v])"
  using assms(2)
proof (induction joints arbitrary: state)
  case Nil
  then show ?case by simp
next
  case (Cons v vs)
  show ?case
  proof (cases "v \<in> set (js_name (joint_state m))")
    case False
    then have "recorded_position m v = None"
      using recorded_position_None [OF assms(1), of v] by simp
    then have "make_state m (v # vs) state = Inr ([], False, [JointVariableNotFound v])"
      by (simp add: find_joint_recorded [OF assms(1)])
    then show ?thesis using False by auto
  next
    case True
    then have "recorded_position m v \<noteq> None"
      using recorded_position_None [OF assms(1), of v] by simp
    then obtain p where p: "recorded_position m v = Some p" by auto
    have step: "make_state m (v # vs) state = make_state m vs (state @ [p])"
      by (simp add: find_joint_recorded [OF assms(1)] p)
    have "\<not> set vs \<subseteq> set (js_name (joint_state m))" using Cons.prems True by simp
    from Cons.IH [OF this, of "state @ [p]"] show ?thesis using step by auto
  qed
qed

text \<open>
  C8, as stated, fails for a message whose position array is shorter than its name
  array: for the message with the one name \<open>shoulder\<close> and no position, and the planning
  joint \<open>shoulder\<close>, the code finds the name at index 0 and reads
  \<^verbatim>\<open>joint_state.position[0]\<close> of an empty vector. The call neither succeeds with the
  recorded position nor returns the empty vector with the failure flag.
\<close>

theorem MakeRobotState_counterexample:
  "MakeRobotState names_only [''shoulder''] = Inl OutOfRange"
  by (simp add: MakeRobotState_def names_only_def find_joint.simps)

text \<open>
  C8, amended. For every message whose position array is at least as long as its name
  array, and every list of planning joints: if every planning joint is a name of the
  message, \<^verbatim>\<open>MakeRobotState\<close> returns the flag \<^verbatim>\<open>true\<close> and one entry per planning
  joint, in the order of the planning joints, each the position recorded under that
  joint's name (at the first index that holds the name); otherwise it returns the
  empty vector and the flag \<^verbatim>\<open>false\<close>, and logs a planning joint that the message
  does not name. No partial vector is returned.
\<close>

theorem MakeRobotState_parallel_arrays:
  assumes "length (js_name (joint_state m)) \<le> length (js_position (joint_state m))"
  shows "(set joints \<subseteq> set (js_name (joint_state m)) \<longrightarrow>
            MakeRobotState m joints = Inr (map (\<lambda>v. the (recorded_position m v)) joints, True, []))
         \<and> (\<not> set joints \<subseteq> set (js_name (joint_state m)) \<longrightarrow>
            (\<exists>v. v \<in> set joints \<and> v \<notin> set (js_name (joint_state m))
               \<and> MakeRobotState m joints = Inr ([], False, [JointVariableNotFound v])))"
  using make_state_found [OF assms, of joints "[]"] make_state_missing [OF assms, of joints "[]"]
  by (simp add: MakeRobotState_def)

theorem MakeRobotState_parallel_arrays_witness:
  "length (js_name (joint_state two_joints)) \<le> length (js_position (joint_state two_joints))
   \<and> MakeRobotState two_joints [''elbow'', ''shoulder''] = Inr ([1.5, 0.5], True, [])
   \<and> (\<exists>v. MakeRobotState two_joints [''elbow'', ''wrist''] = Inr ([], False, [JointVariableNotFound v]))"
proof -
  have h: "length (js_name (joint_state two_joints)) \<le> length (js_position (joint_state two_joints))"
    by (simp add: two_joints_def)
  show ?thesis
    using h MakeRobotState_parallel_arrays [OF h, of "[''elbow'', ''shoulder'']"]
      MakeRobotState_parallel_arrays [OF h, of "[''elbow'', ''wrist'']"]
    by (auto simp add: two_joints_def recorded_position_def)
qed


end
